theory Spec2Isabelle
  imports Main "HOL-Library.Word" "HOL-Library.List_Lexorder"
begin

section \<open>Ethereum Node Records: the class ENR of src/enr/enr.ts\<close>

text \<open>
  The class \<^verbatim>\<open>ENR extends Map<ENRKey, ENRValue>\<close> is embedded as a record of its three
  pieces of state (the inherited map, \<^verbatim>\<open>seq\<close> and \<^verbatim>\<open>signature\<close>); every method takes the
  record and returns the updated one. A \<^verbatim>\<open>throw\<close> or a failed \<^verbatim>\<open>assert\<close> is a value of
  the type \<open>error\<close>, named after the error taxonomy of the specification.

  Representation choices:
  \<^item> a \<^verbatim>\<open>Buffer\<close> is a list of bytes (\<open>8 word\<close>);
  \<^item> an \<^verbatim>\<open>ENRKey\<close> (a JavaScript string) is represented by its UTF-8 bytes, so that
    \<^verbatim>\<open>Buffer.from(key)\<close> and \<^verbatim>\<open>buf.toString()\<close> are the identity; \<open>utf8\<close> writes an ASCII
    literal as such a key;
  \<^item> the sequence number (a \<^verbatim>\<open>bigint\<close> in the source, unsigned by the data model) is a
    \<open>nat\<close>;
  \<^item> the JavaScript \<^verbatim>\<open>Map\<close> is an association list in insertion order, keys unique.
\<close>

subsection \<open>Bytes, keys and errors\<close>

type_synonym byte = "8 word"
type_synonym buffer = "byte list"
type_synonym ENRKey = buffer
type_synonym ENRValue = buffer
type_synonym SequenceNumber = nat
type_synonym NodeId = buffer

definition utf8 :: "string \<Rightarrow> buffer" where
  "utf8 s = map of_char s"

datatype error =
    UnsupportedIdentityScheme  \<comment> \<open>\<^verbatim>\<open>throw new Error(ERR_INVALID_ID)\<close>\<close>
  | MalformedRecord            \<comment> \<open>the codec rejects the bytes, or one of the first two asserts of decode fails\<close>
  | InvalidSignature           \<comment> \<open>\<^verbatim>\<open>assert(enr.verify(...), "Unable to verify enr signature")\<close>\<close>
  | NoSignature                \<comment> \<open>\<^verbatim>\<open>throw new Error(ERR_NO_SIGNATURE)\<close>\<close>
  | RecordTooLarge             \<comment> \<open>\<^verbatim>\<open>assert(encoded.length < MAX_RECORD_SIZE, ...)\<close>\<close>
  | InvalidEndpoint            \<comment> \<open>\<^verbatim>\<open>throw new Error("Invalid udp multiaddr")\<close>\<close>
  | TypeError                  \<comment> \<open>the JavaScript runtime: a property of \<^verbatim>\<open>undefined\<close> is read\<close>
  | RangeError                 \<comment> \<open>the JavaScript runtime: \<^verbatim>\<open>readUInt16BE\<close> past the end of a buffer\<close>

subsection \<open>Numbers\<close>

text \<open>
  \<^verbatim>\<open>Number(this.seq)\<close> converts the \<^verbatim>\<open>bigint\<close> to an IEEE 754 double: exact below \<open>2^53\<close>,
  otherwise rounded to 53 significant bits (to nearest, ties to even), and \<^verbatim>\<open>Infinity\<close>
  once the rounded value reaches \<open>2^1024\<close>.
\<close>

datatype js_number = Finite nat | Infinity

fun bit_length :: "nat \<Rightarrow> nat" where
  "bit_length n = (if n = 0 then 0 else Suc (bit_length (n div 2)))"

declare bit_length.simps [simp del]

definition Number :: "nat \<Rightarrow> js_number" where
  "Number n =
     (if n < 2 ^ 53 then Finite n
      else
        let e = bit_length n - 53;
            q = n div 2 ^ e;
            r = n mod 2 ^ e;
            half = 2 ^ (e - 1);
            q' = (if half < r \<or> (r = half \<and> odd q) then q + 1 else q);
            v = q' * 2 ^ e
        in if 2 ^ 1024 \<le> v then Infinity else Finite v)"

text \<open>\<^verbatim>\<open>toBigIntBE(buf)\<close> of the package bigint-buffer: the bytes as a big-endian natural number.\<close>

definition toBigIntBE :: "buffer \<Rightarrow> nat" where
  "toBigIntBE buf = foldl (\<lambda>acc b. acc * 256 + unat b) 0 buf"

text \<open>The minimal big-endian bytes of a natural number; zero is the empty byte string.\<close>

fun be_bytes :: "nat \<Rightarrow> buffer" where
  "be_bytes n = (if n = 0 then [] else be_bytes (n div 256) @ [of_nat (n mod 256)])"

declare be_bytes.simps [simp del]

subsection \<open>The canonical codec (RLP)\<close>

text \<open>
  Modelled from the spec: the package \<^verbatim>\<open>rlp\<close> is an external dependency, not among the
  source files. Section 4.2 of the specification fixes its encoding: an item is a byte
  string or a list of items; a byte string of length one whose byte is below \<open>0x80\<close> is
  its own encoding; otherwise the header is one byte (\<open>0x80\<close> or \<open>0xc0\<close> plus the length)
  for a payload of at most 55 bytes, and a byte (\<open>0xb7\<close> or \<open>0xf7\<close> plus the number of length
  bytes) followed by the big-endian length for a longer one. Integers are encoded as their
  minimal big-endian bytes, zero as the empty string.
\<close>

datatype rlp = Buf buffer | Arr "rlp list"

definition encodeLength :: "nat \<Rightarrow> nat \<Rightarrow> buffer" where
  "encodeLength len offset =
     (if len < 56 then [of_nat (len + offset)]
      else of_nat (offset + 55 + length (be_bytes len)) # be_bytes len)"

fun rlp_encode :: "rlp \<Rightarrow> buffer" where
  "rlp_encode (Buf bs) =
     (case bs of
        [b] \<Rightarrow> if b < 0x80 then [b] else encodeLength 1 128 @ bs
      | _ \<Rightarrow> encodeLength (length bs) 128 @ bs)"
| "rlp_encode (Arr xs) =
     encodeLength (length (concat (map rlp_encode xs))) 192 @ concat (map rlp_encode xs)"

text \<open>
  Modelled from the spec: the codec's treatment of its input items (the package \<^verbatim>\<open>rlp\<close>).
  What \<^verbatim>\<open>encode\<close> hands to \<^verbatim>\<open>RLP.encode\<close> is an array of strings, buffers and numbers
  (\<^verbatim>\<open>Array<ENRKey | ENRValue | number>\<close>); the codec turns each into a byte string first:
  a string into its bytes, a non-negative integer into its minimal big-endian bytes. A
  missing value (\<^verbatim>\<open>undefined\<close>) and a number that is not finite have no digits and give the
  empty byte string.
\<close>

datatype rlp_input = InStr ENRKey | InBuf buffer | InNum js_number | InUndefined

fun toBuffer :: "rlp_input \<Rightarrow> buffer" where
  "toBuffer (InStr k) = k"
| "toBuffer (InBuf b) = b"
| "toBuffer (InNum (Finite n)) = be_bytes n"
| "toBuffer (InNum Infinity) = []"
| "toBuffer InUndefined = []"

definition RLP_encode :: "rlp_input list \<Rightarrow> buffer" where
  "RLP_encode items = rlp_encode (Arr (map (\<lambda>x. Buf (toBuffer x)) items))"

text \<open>
  Modelled from the spec: the decoder of the package \<^verbatim>\<open>rlp\<close>, by the same section. It
  rejects truncated input, a header whose declared length exceeds the bytes that remain
  and a length written with a leading zero byte; it also rejects a single byte below
  \<open>0x80\<close> written with the header \<open>0x81\<close>. Where the codec rejects, the result is \<open>None\<close>.

  \<open>rlp_header\<close> reads one header: whether the item is a list, where its payload starts
  and how long it is.
\<close>

definition rlp_header :: "buffer \<Rightarrow> (bool \<times> nat \<times> nat) option" where
  "rlp_header input =
     (case input of
        [] \<Rightarrow> None
      | b # rest \<Rightarrow>
          if unat b \<le> 0x7f then Some (False, 0, 1)
          else if unat b \<le> 0xb7 then
            (if length rest < unat b - 0x80 then None
             else if unat b = 0x81 \<and> unat (hd rest) < 0x80 then None
             else Some (False, 1, unat b - 0x80))
          else if unat b \<le> 0xbf then
            (if length rest < unat b - 0xb7 then None
             else if hd rest = 0 then None
             else if length rest < unat b - 0xb7 + toBigIntBE (take (unat b - 0xb7) rest) then None
             else Some (False, 1 + (unat b - 0xb7), toBigIntBE (take (unat b - 0xb7) rest)))
          else if unat b \<le> 0xf7 then
            (if length rest < unat b - 0xc0 then None
             else Some (True, 1, unat b - 0xc0))
          else
            (if length rest < unat b - 0xf7 then None
             else if hd rest = 0 then None
             else if length rest < unat b - 0xf7 + toBigIntBE (take (unat b - 0xf7) rest) then None
             else Some (True, 1 + (unat b - 0xf7), toBigIntBE (take (unat b - 0xf7) rest))))"

lemma rlp_header_bounds:
  assumes "rlp_header input = Some (l, off, len)"
  shows "off + len \<le> length input" and "0 < off + len" and "l \<Longrightarrow> 0 < off"
  using assms by (auto simp: rlp_header_def split: list.splits if_splits)

text \<open>
  Modelled from the spec: the decoder's loop over the items of a list's payload, one after
  the other, until the payload is used up.
\<close>

function rlp_items :: "buffer \<Rightarrow> rlp list option" where
  "rlp_items inner =
     (if inner = [] then Some []
      else
        (case rlp_header inner of
           None \<Rightarrow> None
         | Some (is_list, off, len) \<Rightarrow>
             (case (if is_list
                    then map_option Arr (rlp_items (take len (drop off inner)))
                    else Some (Buf (take len (drop off inner)))) of
                None \<Rightarrow> None
              | Some d \<Rightarrow> map_option (Cons d) (rlp_items (drop (off + len) inner)))))"
  by pat_completeness auto
termination
proof (relation "measure length")
  show "wf (measure length)" by simp
next
  fix inner :: buffer and h is_list rest off len
  assume "rlp_header inner = Some h" "(is_list, rest) = h" "(off, len) = rest" "is_list"
  then have "rlp_header inner = Some (is_list, off, len)" by simp
  from rlp_header_bounds[OF this] \<open>is_list\<close>
  show "(take len (drop off inner), inner) \<in> measure length"
    by auto
next
  fix inner :: buffer and h is_list rest off len
  assume "rlp_header inner = Some h" "(is_list, rest) = h" "(off, len) = rest"
  then have "rlp_header inner = Some (is_list, off, len)" by simp
  from rlp_header_bounds[OF this]
  show "(drop (off + len) inner, inner) \<in> measure length"
    by auto
qed

declare rlp_items.simps [simp del]

text \<open>
  Modelled from the spec: \<^verbatim>\<open>RLP.decode\<close>, one item that must use up the whole input.
\<close>

definition RLP_decode :: "buffer \<Rightarrow> rlp option" where
  "RLP_decode input =
     (case rlp_header input of
        None \<Rightarrow> None
      | Some (is_list, off, len) \<Rightarrow>
          if off + len \<noteq> length input then None
          else if is_list then map_option Arr (rlp_items (drop off input))
          else Some (Buf (drop off input)))"

subsection \<open>The host and the identity scheme, as parameters\<close>

text \<open>
  What the class calls and is not part of its source is taken as a parameter:
  \<^item> the host's \<^verbatim>\<open>String.prototype.localeCompare\<close> (its result depends on the engine and on
    the process's locale);
  \<^item> the functions \<^verbatim>\<open>sign\<close>, \<^verbatim>\<open>verify\<close> and \<^verbatim>\<open>nodeId\<close> of the module \<^verbatim>\<open>./v4\<close> (secp256k1 and
    keccak). The public key handed to \<^verbatim>\<open>v4.verify\<close> and \<^verbatim>\<open>v4.nodeId\<close> is
    \<^verbatim>\<open>this.get("secp256k1")\<close>, which is \<^verbatim>\<open>undefined\<close> when the entry is missing: hence the option;
  \<^item> what the JavaScript runtime does, in \<^verbatim>\<open>decode\<close>, with the items the codec returned. The
    cast of the decoded value to \<^verbatim>\<open>Buffer[]\<close> is not checked at run time, so an item may be a
    \<^verbatim>\<open>Buffer\<close> or an array of items.
    \<^item> \<open>item_toString\<close> is \<^verbatim>\<open>kvs[i].toString()\<close>: the UTF-8 decoding of a \<^verbatim>\<open>Buffer\<close>, in which
      ill-formed bytes are replaced, and for an array the texts of its elements joined by
      commas; the string is represented by its UTF-8 bytes, as every key is.
    \<^item> \<open>Buffer_from_array\<close> is \<^verbatim>\<open>Buffer.from(kvs[i + 1])\<close> for an array, \<open>None\<close> where it throws.
    \<^item> \<open>toBigIntBE_array\<close> is \<^verbatim>\<open>toBigIntBE(seq)\<close> for an array, \<open>None\<close> where it throws.
    \<^item> \<open>Object_entries\<close> is the plain object: from the assignments \<^verbatim>\<open>obj[key] = value\<close>, in the
      order they are made, to \<^verbatim>\<open>Object.entries(obj)\<close> (which has no entry for \<^verbatim>\<open>__proto__\<close>
      and lists integer-like keys first).
    \<^item> \<open>v4_verify_array_throws\<close> says whether \<^verbatim>\<open>v4.verify\<close> throws when the signature it is
      handed is an array; where it does not throw it returns false (see \<open>verify_item\<close>).
\<close>

record host =
  localeCompare :: "ENRKey \<Rightarrow> ENRKey \<Rightarrow> int"
  v4_sign :: "buffer \<Rightarrow> buffer \<Rightarrow> buffer"
  v4_verify :: "buffer option \<Rightarrow> buffer \<Rightarrow> buffer \<Rightarrow> bool"
  v4_nodeId :: "buffer option \<Rightarrow> NodeId"
  item_toString :: "rlp \<Rightarrow> ENRKey"
  Buffer_from_array :: "rlp list \<Rightarrow> buffer option"
  toBigIntBE_array :: "rlp list \<Rightarrow> nat option"
  Object_entries :: "(ENRKey \<times> ENRValue) list \<Rightarrow> (ENRKey \<times> ENRValue) list"
  v4_verify_array_throws :: "buffer option \<Rightarrow> buffer \<Rightarrow> rlp list \<Rightarrow> bool"

subsection \<open>The record and its map\<close>

record ENR =
  entries :: "(ENRKey \<times> ENRValue) list"
  seq :: SequenceNumber
  signature :: "buffer option"

text \<open>\<^verbatim>\<open>Map.prototype.set\<close>: a key already present keeps its place, a new key goes last.\<close>

fun map_set :: "ENRKey \<Rightarrow> ENRValue \<Rightarrow> (ENRKey \<times> ENRValue) list \<Rightarrow> (ENRKey \<times> ENRValue) list" where
  "map_set k v [] = [(k, v)]"
| "map_set k v (e # es) = (if fst e = k then (k, v) # es else e # map_set k v es)"

definition get_ENR :: "ENR \<Rightarrow> ENRKey \<Rightarrow> ENRValue option" where
  "get_ENR r k = map_of (entries r) k"

definition keys :: "ENR \<Rightarrow> ENRKey list" where
  "keys r = map fst (entries r)"

text \<open>
  \<^verbatim>\<open>set(k, v) { this.signature = null; this.seq++; return super.set(k, v); }\<close>
\<close>

definition set_ENR :: "ENRKey \<Rightarrow> ENRValue \<Rightarrow> ENR \<Rightarrow> ENR" where
  "set_ENR k v r = r\<lparr>signature := None, seq := seq r + 1, entries := map_set k v (entries r)\<rparr>"

subsection \<open>Identity scheme dispatch\<close>

text \<open>
  \<^verbatim>\<open>get id() { return (this.get("id") as Buffer).toString("utf8"); }\<close>: with no \<^verbatim>\<open>id\<close> entry
  the call of \<^verbatim>\<open>toString\<close> on \<^verbatim>\<open>undefined\<close> is a TypeError.
\<close>

definition id_ENR :: "ENR \<Rightarrow> error + buffer" where
  "id_ENR r = (case get_ENR r (utf8 ''id'') of None \<Rightarrow> Inl TypeError | Some b \<Rightarrow> Inr b)"

definition publicKey :: "ENR \<Rightarrow> error + buffer option" where
  "publicKey r =
     (case id_ENR r of
        Inl e \<Rightarrow> Inl e
      | Inr i \<Rightarrow> if i = utf8 ''v4'' then Inr (get_ENR r (utf8 ''secp256k1''))
                else Inl UnsupportedIdentityScheme)"

definition nodeId :: "host \<Rightarrow> ENR \<Rightarrow> error + NodeId" where
  "nodeId H r =
     (case id_ENR r of
        Inl e \<Rightarrow> Inl e
      | Inr i \<Rightarrow>
          if i = utf8 ''v4''
          then (case publicKey r of Inl e \<Rightarrow> Inl e | Inr pk \<Rightarrow> Inr (v4_nodeId H pk))
          else Inl UnsupportedIdentityScheme)"

definition verify :: "host \<Rightarrow> ENR \<Rightarrow> buffer \<Rightarrow> buffer \<Rightarrow> error + bool" where
  "verify H r data sig =
     (case id_ENR r of
        Inl e \<Rightarrow> Inl e
      | Inr i \<Rightarrow>
          if i = utf8 ''v4''
          then (case publicKey r of Inl e \<Rightarrow> Inl e | Inr pk \<Rightarrow> Inr (v4_verify H pk data sig))
          else Inl UnsupportedIdentityScheme)"

text \<open>
  \<^verbatim>\<open>sign\<close> stores the new signature in the record and returns it; it throws, leaving the
  record as it was, when the scheme is not \<^verbatim>\<open>v4\<close>.
\<close>

definition sign :: "host \<Rightarrow> buffer \<Rightarrow> buffer \<Rightarrow> ENR \<Rightarrow> (error + buffer) \<times> ENR" where
  "sign H data privateKey r =
     (case id_ENR r of
        Inl e \<Rightarrow> (Inl e, r)
      | Inr i \<Rightarrow>
          if i = utf8 ''v4''
          then (Inr (v4_sign H privateKey data), r\<lparr>signature := Some (v4_sign H privateKey data)\<rparr>)
          else (Inl UnsupportedIdentityScheme, r))"

subsection \<open>encode\<close>

text \<open>
  \<^verbatim>\<open>Array.prototype.sort(compare)\<close> is a stable sort; it is modelled by the stable insertion
  sort, which gives the same result for every comparison that is a total preorder.
\<close>

fun insert_by :: "('a \<Rightarrow> 'a \<Rightarrow> int) \<Rightarrow> 'a \<Rightarrow> 'a list \<Rightarrow> 'a list" where
  "insert_by cmp x [] = [x]"
| "insert_by cmp x (y # ys) = (if cmp x y \<le> 0 then x # y # ys else y # insert_by cmp x ys)"

definition sort_by :: "('a \<Rightarrow> 'a \<Rightarrow> int) \<Rightarrow> 'a list \<Rightarrow> 'a list" where
  "sort_by cmp xs = foldr (insert_by cmp) xs []"

text \<open>
  Modelled from the spec: \<^verbatim>\<open>MAX_RECORD_SIZE\<close> is imported from \<^verbatim>\<open>./constants\<close>, which is not
  among the source files; the specification and the assertion's message give 300.
\<close>

definition MAX_RECORD_SIZE :: nat where
  "MAX_RECORD_SIZE = 300"

text \<open>
  The first four lines of \<^verbatim>\<open>encode\<close>: the keys sorted with \<^verbatim>\<open>localeCompare\<close>, each followed by
  its value, after the sequence number as a JavaScript number.
\<close>

definition flatten_entry :: "ENR \<Rightarrow> ENRKey \<Rightarrow> rlp_input list" where
  "flatten_entry r k = [InStr k, (case get_ENR r k of None \<Rightarrow> InUndefined | Some v \<Rightarrow> InBuf v)]"

definition sorted_keys :: "host \<Rightarrow> ENR \<Rightarrow> ENRKey list" where
  "sorted_keys H r = sort_by (localeCompare H) (keys r)"

definition content :: "host \<Rightarrow> ENR \<Rightarrow> rlp_input list" where
  "content H r = InNum (Number (seq r)) # concat (map (flatten_entry r) (sorted_keys H r))"

text \<open>The bytes that follow a key in the encoding: its value, as the codec writes it.\<close>

definition value_of :: "ENR \<Rightarrow> ENRKey \<Rightarrow> buffer" where
  "value_of r k = (case get_ENR r k of None \<Rightarrow> [] | Some v \<Rightarrow> v)"

text \<open>
  The signature that \<^verbatim>\<open>encode\<close> puts in front: a fresh one, stored in the record, when a
  private key is given, and the stored one otherwise.
\<close>

definition signature_step :: "host \<Rightarrow> buffer option \<Rightarrow> ENR \<Rightarrow> (error + buffer) \<times> ENR" where
  "signature_step H privateKey r =
     (case privateKey of
        Some pk \<Rightarrow> sign H (RLP_encode (content H r)) pk r
      | None \<Rightarrow> (case signature r of None \<Rightarrow> (Inl NoSignature, r) | Some s \<Rightarrow> (Inr s, r)))"

definition encode :: "host \<Rightarrow> buffer option \<Rightarrow> ENR \<Rightarrow> (error + buffer) \<times> ENR" where
  "encode H privateKey r =
     (case signature_step H privateKey r of
        (Inl e, r') \<Rightarrow> (Inl e, r')
      | (Inr s, r') \<Rightarrow>
          if length (RLP_encode (InBuf s # content H r)) < MAX_RECORD_SIZE
          then (Inr (RLP_encode (InBuf s # content H r)), r')
          else (Inl RecordTooLarge, r'))"

subsection \<open>decode\<close>

text \<open>
  \<^verbatim>\<open>Buffer.from(kvs[i + 1])\<close>: a copy of a \<^verbatim>\<open>Buffer\<close>; for an array, what the runtime makes of it.
\<close>

definition Buffer_from :: "host \<Rightarrow> rlp \<Rightarrow> buffer option" where
  "Buffer_from H x = (case x of Buf b \<Rightarrow> Some b | Arr xs \<Rightarrow> Buffer_from_array H xs)"

text \<open>
  \<^verbatim>\<open>for (let i = 0; i < kvs.length; i += 2) obj[kvs[i].toString()] = Buffer.from(kvs[i + 1])\<close>:
  the assignments the loop makes, in order. A key with no value after it would hand
  \<^verbatim>\<open>undefined\<close> to \<^verbatim>\<open>Buffer.from\<close>, a TypeError, as is every exception of the runtime here.
\<close>

fun assignments :: "host \<Rightarrow> rlp list \<Rightarrow> error + (ENRKey \<times> ENRValue) list" where
  "assignments H [] = Inr []"
| "assignments H [k] = Inl TypeError"
| "assignments H (k # v # kvs) =
     (case Buffer_from H v of
        None \<Rightarrow> Inl TypeError
      | Some b \<Rightarrow>
          (case assignments H kvs of
             Inl e \<Rightarrow> Inl e
           | Inr ps \<Rightarrow> Inr ((item_toString H k, b) # ps)))"

text \<open>
  \<^verbatim>\<open>super(Object.entries(kvs))\<close> in the constructor: the \<^verbatim>\<open>Map\<close> built from a list of entries,
  each stored with \<^verbatim>\<open>Map.prototype.set\<close>.
\<close>

definition new_Map :: "(ENRKey \<times> ENRValue) list \<Rightarrow> (ENRKey \<times> ENRValue) list" where
  "new_Map ps = foldl (\<lambda>m p. map_set (fst p) (snd p) m) [] ps"

text \<open>\<^verbatim>\<open>toBigIntBE(seq)\<close> of a decoded item.\<close>

definition toBigIntBE_item :: "host \<Rightarrow> rlp \<Rightarrow> error + nat" where
  "toBigIntBE_item H x =
     (case x of
        Buf b \<Rightarrow> Inr (toBigIntBE b)
      | Arr xs \<Rightarrow> (case toBigIntBE_array H xs of None \<Rightarrow> Inl TypeError | Some n \<Rightarrow> Inr n))"

text \<open>
  Modelled from the spec: \<^verbatim>\<open>v4.verify\<close> (the module \<^verbatim>\<open>./v4\<close>) returns false on malformed
  signature input (section 4.1). So in \<^verbatim>\<open>enr.verify(data, signature)\<close> with a decoded
  signature item that is an array, the scheme dispatch runs as for a \<^verbatim>\<open>Buffer\<close>, and then
  \<^verbatim>\<open>v4.verify\<close> throws or returns false. Such a signature is never accepted, so the record
  that would hold it is never returned, and the candidate record is written with no
  signature in that case.
\<close>

definition signature_of :: "rlp \<Rightarrow> buffer option" where
  "signature_of sg = (case sg of Buf s \<Rightarrow> Some s | Arr xs \<Rightarrow> None)"

definition verify_item :: "host \<Rightarrow> ENR \<Rightarrow> buffer \<Rightarrow> rlp \<Rightarrow> error + bool" where
  "verify_item H r data sg =
     (case sg of
        Buf s \<Rightarrow> verify H r data s
      | Arr xs \<Rightarrow>
          (case publicKey r of
             Inl e \<Rightarrow> Inl e
           | Inr pk \<Rightarrow> if v4_verify_array_throws H pk data xs then Inl TypeError else Inr False))"

text \<open>
  \<^verbatim>\<open>decode\<close>: the two assertions on the decoded value, the loop, the candidate record and
  the assertion that its signature verifies over \<^verbatim>\<open>RLP.encode([seq, ...kvs])\<close>, the items as
  they were received. With an empty list \<^verbatim>\<open>seq\<close> is \<^verbatim>\<open>undefined\<close> and \<^verbatim>\<open>toBigIntBE\<close> throws.
\<close>

definition decode :: "host \<Rightarrow> buffer \<Rightarrow> error + ENR" where
  "decode H encoded =
     (case RLP_decode encoded of
        None \<Rightarrow> Inl MalformedRecord
      | Some (Buf b) \<Rightarrow> Inl MalformedRecord
      | Some (Arr decoded) \<Rightarrow>
          if length decoded mod 2 \<noteq> 0 then Inl MalformedRecord
          else
            (case decoded of
               [] \<Rightarrow> Inl TypeError
             | [sg] \<Rightarrow> Inl TypeError
             | sg # sq # kvs \<Rightarrow>
                 (case assignments H kvs of
                    Inl e \<Rightarrow> Inl e
                  | Inr ps \<Rightarrow>
                      (case toBigIntBE_item H sq of
                         Inl e \<Rightarrow> Inl e
                       | Inr n \<Rightarrow>
                           (case verify_item H
                                   \<lparr>entries = new_Map (Object_entries H ps), seq = n,
                                    signature = signature_of sg\<rparr>
                                   (rlp_encode (Arr (sq # kvs))) sg of
                              Inl e \<Rightarrow> Inl e
                            | Inr ok \<Rightarrow>
                                if ok
                                then Inr \<lparr>entries = new_Map (Object_entries H ps), seq = n,
                                          signature = signature_of sg\<rparr>
                                else Inl InvalidSignature)))))"

subsection \<open>Endpoint views\<close>

text \<open>
  The package \<^verbatim>\<open>multiaddr\<close> is an external dependency; the class uses three things of it,
  taken as parameters over the library's type \<open>'m\<close> of addresses: the constructor from a
  string (which throws on a string it cannot parse), \<^verbatim>\<open>protoNames()\<close> and \<^verbatim>\<open>tuples()\<close> (the
  protocol code and the value bytes of each segment).
\<close>

record 'm multiaddr_lib =
  Multiaddr :: "string \<Rightarrow> error + 'm"
  protoNames :: "'m \<Rightarrow> string list"
  tuples :: "'m \<Rightarrow> (nat \<times> buffer) list"

text \<open>\<^verbatim>\<open>n.toString(radix)\<close> and the default decimal printing of a non-negative integer.\<close>

definition digit_char :: "nat \<Rightarrow> char" where
  "digit_char d = (if d < 36 then ''0123456789abcdefghijklmnopqrstuvwxyz'' ! d else CHR ''?'')"

function toString_radix :: "nat \<Rightarrow> nat \<Rightarrow> string" where
  "toString_radix radix n =
     (if n < radix \<or> radix < 2 then [digit_char n]
      else toString_radix radix (n div radix) @ [digit_char (n mod radix)])"
  by pat_completeness auto
termination
  by (relation "measure snd") auto

declare toString_radix.simps [simp del]

fun join :: "string \<Rightarrow> string list \<Rightarrow> string" where
  "join sep [] = []"
| "join sep [x] = x"
| "join sep (x # y # xs) = x @ sep @ join sep (y # xs)"

definition readUInt16BE :: "buffer \<Rightarrow> error + nat" where
  "readUInt16BE buf =
     (case buf of b0 # b1 # rest \<Rightarrow> Inr (unat b0 * 256 + unat b1) | _ \<Rightarrow> Inl RangeError)"

text \<open>
  The two getters differ in the transport's name and keys only; \<open>get_multiaddr\<close> is their
  common body, with the transport (\<^verbatim>\<open>udp\<close> or \<^verbatim>\<open>tcp\<close>) as an argument. A \<^verbatim>\<open>Buffer\<close> is
  truthy whatever its length, so \<^verbatim>\<open>if (ip4)\<close> asks whether the entry is present.
  \<^verbatim>\<open>Uint16Array.from(ip6)\<close> has one element for each byte.
\<close>

definition ip4_string :: "buffer \<Rightarrow> string \<Rightarrow> nat \<Rightarrow> string" where
  "ip4_string ip4 transport port =
     ''/ip4/'' @ join ''.'' (map (\<lambda>b. toString_radix 10 (unat b)) ip4) @
     ''/'' @ transport @ ''/'' @ toString_radix 10 port"

definition ip6_string :: "buffer \<Rightarrow> string \<Rightarrow> nat \<Rightarrow> string" where
  "ip6_string ip6 transport port =
     ''/ip6/'' @ join '':'' (map (\<lambda>b. toString_radix 16 (unat b)) ip6) @
     ''/'' @ transport @ ''/'' @ toString_radix 10 port"

definition get_multiaddr6 :: "'m multiaddr_lib \<Rightarrow> string \<Rightarrow> ENR \<Rightarrow> error + 'm option" where
  "get_multiaddr6 L transport r =
     (case get_ENR r (utf8 ''ip6'') of
        None \<Rightarrow> Inr None
      | Some ip6 \<Rightarrow>
          (case get_ENR r (utf8 (transport @ ''6'')) of
             None \<Rightarrow> Inr None
           | Some port6 \<Rightarrow>
               (case readUInt16BE port6 of
                  Inl e \<Rightarrow> Inl e
                | Inr p \<Rightarrow> map_sum (\<lambda>e. e) Some (Multiaddr L (ip6_string ip6 transport p)))))"

definition get_multiaddr :: "'m multiaddr_lib \<Rightarrow> string \<Rightarrow> ENR \<Rightarrow> error + 'm option" where
  "get_multiaddr L transport r =
     (case get_ENR r (utf8 ''ip'') of
        None \<Rightarrow> get_multiaddr6 L transport r
      | Some ip4 \<Rightarrow>
          (case get_ENR r (utf8 transport) of
             None \<Rightarrow> get_multiaddr6 L transport r
           | Some port4 \<Rightarrow>
               (case readUInt16BE port4 of
                  Inl e \<Rightarrow> Inl e
                | Inr p \<Rightarrow> map_sum (\<lambda>e. e) Some (Multiaddr L (ip4_string ip4 transport p)))))"

definition get_multiaddrUDP :: "'m multiaddr_lib \<Rightarrow> ENR \<Rightarrow> error + 'm option" where
  "get_multiaddrUDP L r = get_multiaddr L ''udp'' r"

definition get_multiaddrTCP :: "'m multiaddr_lib \<Rightarrow> ENR \<Rightarrow> error + 'm option" where
  "get_multiaddrTCP L r = get_multiaddr L ''tcp'' r"

text \<open>
  The setters, likewise with the transport as an argument. The argument \<open>None\<close> is
  \<^verbatim>\<open>undefined\<close>. \<^verbatim>\<open>protoNames[1]\<close> is \<^verbatim>\<open>undefined\<close>, and so different from the transport's name,
  when there are fewer than two segments; reading \<^verbatim>\<open>tuples[0][0]\<close> or \<^verbatim>\<open>tuples[1][1]\<close> of a
  missing segment is a TypeError.
\<close>

definition second_is :: "string list \<Rightarrow> string \<Rightarrow> bool" where
  "second_is names transport = (case names of a # b # rest \<Rightarrow> b = transport | _ \<Rightarrow> False)"

definition set_multiaddr :: "'m multiaddr_lib \<Rightarrow> string \<Rightarrow> 'm option \<Rightarrow> ENR \<Rightarrow> error + ENR" where
  "set_multiaddr L transport multiaddr r =
     (case multiaddr of
        None \<Rightarrow> Inr r
      | Some m \<Rightarrow>
          if length (protoNames L m) \<noteq> 2 \<and> \<not> second_is (protoNames L m) transport
          then Inl InvalidEndpoint
          else
            (case tuples L m of
               t0 # t1 # rest \<Rightarrow>
                 if fst t0 = 4
                 then Inr (set_ENR (utf8 transport) (snd t1) (set_ENR (utf8 ''ip'') (snd t0) r))
                 else Inr (set_ENR (utf8 (transport @ ''6'')) (snd t1) (set_ENR (utf8 ''ip6'') (snd t0) r))
             | _ \<Rightarrow> Inl TypeError))"

definition set_multiaddrUDP :: "'m multiaddr_lib \<Rightarrow> 'm option \<Rightarrow> ENR \<Rightarrow> error + ENR" where
  "set_multiaddrUDP L multiaddr r = set_multiaddr L ''udp'' multiaddr r"

definition set_multiaddrTCP :: "'m multiaddr_lib \<Rightarrow> 'm option \<Rightarrow> ENR \<Rightarrow> error + ENR" where
  "set_multiaddrTCP L multiaddr r = set_multiaddr L ''tcp'' multiaddr r"

subsection \<open>Concrete instances, for evaluation\<close>

text \<open>
  A comparison that orders ASCII letters the way the collation of an English locale
  does (and the root collation of ICU, which Node.js uses): by letter first, whatever the
  case, and lowercase before uppercase where the letters are the same. So \<^verbatim>\<open>"a"\<close> comes
  before \<^verbatim>\<open>"B"\<close>, as \<^verbatim>\<open>"a".localeCompare("B") < 0\<close> says. Other bytes are compared by value.
\<close>

definition fold_case :: "byte \<Rightarrow> byte" where
  "fold_case b = (if 0x41 \<le> b \<and> b \<le> 0x5a then b + 0x20 else b)"

definition collate_en :: "ENRKey \<Rightarrow> ENRKey \<Rightarrow> int" where
  "collate_en a b =
     (if map fold_case a < map fold_case b then - 1
      else if map fold_case b < map fold_case a then 1
      else if a = b then 0
      else if b < a then - 1 else 1)"

text \<open>
  A stand-in for the identity scheme, where a key pair is one byte string used as both
  keys and a signature is the key followed by a checksum of the signed bytes. It has the
  one property of a signature scheme that the class relies on: what a key signs, the same
  key verifies, and nothing else does.
\<close>

definition checksum :: "buffer \<Rightarrow> byte" where
  "checksum data = foldr (+) data 0"

text \<open>
  The runtime of the stand-in host: it is the runtime of JavaScript on ASCII keys other
  than \<^verbatim>\<open>__proto__\<close> and integer-like ones (a \<^verbatim>\<open>Buffer\<close> of ASCII is its own text, the object
  lists its entries in the order of the first assignment to each key), and simple
  elsewhere: an array becomes a \<^verbatim>\<open>Buffer\<close> of zeros, as it does when no element's text reads
  as a number, and \<^verbatim>\<open>toBigIntBE\<close> and \<^verbatim>\<open>v4.verify\<close> throw on an array.
\<close>

fun join_bytes :: "buffer \<Rightarrow> buffer list \<Rightarrow> buffer" where
  "join_bytes sep [] = []"
| "join_bytes sep [x] = x"
| "join_bytes sep (x # y # xs) = x @ sep @ join_bytes sep (y # xs)"

fun ascii_toString :: "rlp \<Rightarrow> buffer" where
  "ascii_toString (Buf b) = b"
| "ascii_toString (Arr xs) = join_bytes [0x2c] (map ascii_toString xs)"

definition demo_host :: host where
  "demo_host =
     \<lparr>localeCompare = collate_en,
      v4_sign = (\<lambda>privateKey data. privateKey @ [checksum data]),
      v4_verify = (\<lambda>publicKey data sig.
         case publicKey of None \<Rightarrow> False | Some k \<Rightarrow> sig = k @ [checksum data]),
      v4_nodeId = (\<lambda>publicKey. case publicKey of None \<Rightarrow> [] | Some k \<Rightarrow> rev k),
      item_toString = ascii_toString,
      Buffer_from_array = (\<lambda>xs. Some (replicate (length xs) 0)),
      toBigIntBE_array = (\<lambda>xs. None),
      Object_entries = (\<lambda>ps. ps),
      v4_verify_array_throws = (\<lambda>publicKey data xs. True)\<rparr>"

text \<open>
  The same host with a signature that depends on the order of the signed bytes.
\<close>

definition chained :: "buffer \<Rightarrow> byte" where
  "chained data = foldl (\<lambda>acc b. 3 * acc + b) 0 data"

definition strict_host :: host where
  "strict_host =
     demo_host
       \<lparr>v4_sign := (\<lambda>privateKey data. privateKey @ [chained data]),
        v4_verify := (\<lambda>publicKey data sig.
           case publicKey of None \<Rightarrow> False | Some k \<Rightarrow> sig = k @ [chained data])\<rparr>"

definition demo_key :: buffer where
  "demo_key = [0x02, 0x9a, 0x33]"

definition demo_record :: ENR where
  "demo_record =
     \<lparr>entries = [(utf8 ''secp256k1'', demo_key), (utf8 ''id'', utf8 ''v4'')],
      seq = 1, signature = None\<rparr>"

text \<open>The same record with the sequence number \<open>2^53 + 1\<close>, and one with a long value.\<close>

definition big_seq_record :: ENR where
  "big_seq_record = demo_record\<lparr>seq := 9007199254740993\<rparr>"

text \<open>A record with the keys \<^verbatim>\<open>B\<close> and \<^verbatim>\<open>a\<close>, inserted in that order.\<close>

definition mixed_case_record :: ENR where
  "mixed_case_record =
     \<lparr>entries = [(utf8 ''B'', [0x01]), (utf8 ''a'', [0x02])], seq = 1, signature = None\<rparr>"

definition large_record :: ENR where
  "large_record =
     \<lparr>entries = [(utf8 ''id'', utf8 ''v4''), (utf8 ''secp256k1'', demo_key),
                 (utf8 ''x'', replicate 300 0)],
      seq = 1, signature = None\<rparr>"

definition endpoint_record :: ENR where
  "endpoint_record =
     \<lparr>entries =
        [(utf8 ''id'', utf8 ''v4''),
         (utf8 ''ip'', [192, 0, 2, 1]),
         (utf8 ''ip6'', [0x20, 0x01, 0x0d, 0xb8, 0, 0, 0, 0, 0, 0, 0, 0, 0, 0, 0, 1]),
         (utf8 ''tcp'', [0x76, 0x5f]),
         (utf8 ''tcp6'', [0x76, 0x61]),
         (utf8 ''udp'', [0x76, 0x5f]),
         (utf8 ''udp6'', [0x76, 0x60])],
      seq = 1, signature = None\<rparr>"

text \<open>
  Two instances of the address library: one where an address is the list of its segments
  (protocol code, protocol name, value bytes), for the setters, whose constructor from
  text is not used and rejects every string; and one where an address is kept as the
  text it was built from, for the getters.
\<close>

datatype segment = Segment nat string buffer

fun segment_code :: "segment \<Rightarrow> nat" where
  "segment_code (Segment c n v) = c"

fun segment_name :: "segment \<Rightarrow> string" where
  "segment_name (Segment c n v) = n"

fun segment_value :: "segment \<Rightarrow> buffer" where
  "segment_value (Segment c n v) = v"

definition segments_lib :: "segment list multiaddr_lib" where
  "segments_lib =
     \<lparr>Multiaddr = (\<lambda>s. Inl InvalidEndpoint),
      protoNames = map segment_name,
      tuples = map (\<lambda>s. (segment_code s, segment_value s))\<rparr>"

definition text_lib :: "string multiaddr_lib" where
  "text_lib = \<lparr>Multiaddr = Inr, protoNames = (\<lambda>s. []), tuples = (\<lambda>s. [])\<rparr>"

section \<open>Properties\<close>

subsection \<open>Entry mutation\<close>

lemma map_of_map_set: "map_of (map_set k v es) = (map_of es)(k \<mapsto> v)"
  by (induction es) (auto simp: fun_eq_iff)

text \<open>
  C4. For every record and every key and value, \<^verbatim>\<open>set\<close> leaves the signature absent, the
  sequence number larger by exactly one and the value stored under the key; nothing is
  compared with the value stored before, so this holds as well when the same value is
  written again.
\<close>

theorem set_ENR_invalidates:
  "signature (set_ENR k v r) = None \<and>
   seq (set_ENR k v r) = seq r + 1 \<and>
   get_ENR (set_ENR k v r) k = Some v"
  by (simp add: set_ENR_def get_ENR_def map_of_map_set)

subsection \<open>encode: the size check and the signing step\<close>

lemma length_rlp_encode_Buf: "length bs \<le> length (rlp_encode (Buf bs))"
  by (cases bs; cases "tl bs") auto

lemma length_concat_member: "x \<in> set xs \<Longrightarrow> length (f x) \<le> length (concat (map f xs))"
  by (induction xs) auto

lemma length_RLP_encode_member:
  assumes "x \<in> set items"
  shows "length (toBuffer x) \<le> length (RLP_encode items)"
proof -
  have "length (toBuffer x) \<le> length (rlp_encode (Buf (toBuffer x)))"
    by (rule length_rlp_encode_Buf)
  also have "\<dots> \<le> length (concat (map rlp_encode (map (\<lambda>x. Buf (toBuffer x)) items)))"
    using length_concat_member[OF assms, of "\<lambda>x. rlp_encode (Buf (toBuffer x))"]
    by (simp add: comp_def)
  finally show ?thesis
    by (simp add: RLP_encode_def)
qed

lemma signature_step_Some:
  "signature_step H (Some k) r = (res, r') \<Longrightarrow>
     (res = Inr (v4_sign H k (RLP_encode (content H r))) \<and>
      r' = r\<lparr>signature := Some (v4_sign H k (RLP_encode (content H r)))\<rparr>) \<or>
     ((\<exists>e. res = Inl e \<and> e \<noteq> RecordTooLarge) \<and> r' = r)"
  by (auto simp: signature_step_def sign_def id_ENR_def split: option.splits if_splits)

lemma signature_update_same: "r\<lparr>signature := s\<rparr> = r \<Longrightarrow> signature r = s"
  by (cases r) simp

lemma demo_record_content:
  "content demo_host demo_record =
     [InNum (Finite 1), InStr (utf8 ''id''), InBuf (utf8 ''v4''),
      InStr (utf8 ''secp256k1''), InBuf demo_key]"
  by (simp add: content_def sorted_keys_def sort_by_def keys_def demo_record_def demo_host_def
      collate_en_def fold_case_def flatten_entry_def get_ENR_def utf8_def Number_def demo_key_def)

lemma demo_record_unsigned_bytes:
  "RLP_encode (content demo_host demo_record) =
     [0xd5, 0x01, 0x82, 0x69, 0x64, 0x82, 0x76, 0x34,
      0x89, 0x73, 0x65, 0x63, 0x70, 0x32, 0x35, 0x36, 0x6b, 0x31, 0x83, 0x02, 0x9a, 0x33]"
  by (simp add: demo_record_content RLP_encode_def encodeLength_def utf8_def demo_key_def
      be_bytes.simps)

lemma demo_record_signature_step:
  "signature_step demo_host (Some demo_key) demo_record =
     (Inr [0x02, 0x9a, 0x33, 0x10], demo_record\<lparr>signature := Some [0x02, 0x9a, 0x33, 0x10]\<rparr>)"
  by (simp add: signature_step_def sign_def demo_record_unsigned_bytes id_ENR_def get_ENR_def)
     (simp add: demo_record_def demo_host_def utf8_def checksum_def demo_key_def)

lemma demo_record_encoded:
  "RLP_encode (InBuf [0x02, 0x9a, 0x33, 0x10] # content demo_host demo_record) =
     [0xda, 0x84, 0x02, 0x9a, 0x33, 0x10, 0x01, 0x82, 0x69, 0x64, 0x82, 0x76, 0x34,
      0x89, 0x73, 0x65, 0x63, 0x70, 0x32, 0x35, 0x36, 0x6b, 0x31, 0x83, 0x02, 0x9a, 0x33]"
  by (simp add: demo_record_content RLP_encode_def encodeLength_def utf8_def demo_key_def
      be_bytes.simps)

text \<open>
  C6. Whenever \<^verbatim>\<open>encode\<close> has the signature \<open>s\<close> to put in front (the fresh one, or the stored
  one), it encodes the full item list \<^verbatim>\<open>[signature, seq, key0, value0, ...]\<close> and compares
  the length with 300: at 300 bytes or more the call fails with RecordTooLarge and gives
  no bytes, below 300 it returns exactly those bytes.
\<close>

theorem encode_size_check:
  assumes "signature_step H privateKey r = (Inr s, r')"
  shows "encode H privateKey r =
           (if length (RLP_encode (InBuf s # content H r)) < 300
            then (Inr (RLP_encode (InBuf s # content H r)), r')
            else (Inl RecordTooLarge, r'))"
  using assms by (simp add: encode_def MAX_RECORD_SIZE_def)

theorem encode_size_check_witness:
  "encode demo_host (Some demo_key) demo_record =
     (Inr [0xda, 0x84, 0x02, 0x9a, 0x33, 0x10, 0x01, 0x82, 0x69, 0x64, 0x82, 0x76, 0x34,
           0x89, 0x73, 0x65, 0x63, 0x70, 0x32, 0x35, 0x36, 0x6b, 0x31, 0x83, 0x02, 0x9a, 0x33],
      demo_record\<lparr>signature := Some [0x02, 0x9a, 0x33, 0x10]\<rparr>)"
  using encode_size_check[OF demo_record_signature_step]
  by (simp add: demo_record_encoded)

text \<open>
  C7. Whatever \<^verbatim>\<open>encode(privateKey)\<close> does, it leaves the sequence number and the entries of
  the record as they were before the call. For a record of the scheme \<^verbatim>\<open>v4\<close> the signing
  step stores the signature computed in the call (that of the private key over the
  encoding of the unsigned item list) in place of the one the record held, also when the
  call then fails on the size check; for any other record \<^verbatim>\<open>sign\<close> throws and the stored
  signature stays. In particular, when the call returns bytes, the record holds the new
  signature and the sequence number of before.
\<close>

theorem encode_keeps_seq:
  "seq (snd (encode H (Some privateKey) r)) = seq r \<and>
   entries (snd (encode H (Some privateKey) r)) = entries r \<and>
   signature (snd (encode H (Some privateKey) r)) =
     (if id_ENR r = Inr (utf8 ''v4'')
      then Some (v4_sign H privateKey (RLP_encode (content H r)))
      else signature r) \<and>
   (\<forall>encoded r'. encode H (Some privateKey) r = (Inr encoded, r') \<longrightarrow>
      seq r' = seq r \<and>
      signature r' = Some (v4_sign H privateKey (RLP_encode (content H r))))"
  by (auto simp: encode_def signature_step_def sign_def split: sum.splits if_splits)

lemma demo_record_encode:
  "encode demo_host (Some demo_key) demo_record =
     (Inr [0xda, 0x84, 0x02, 0x9a, 0x33, 0x10, 0x01, 0x82, 0x69, 0x64, 0x82, 0x76, 0x34,
           0x89, 0x73, 0x65, 0x63, 0x70, 0x32, 0x35, 0x36, 0x6b, 0x31, 0x83, 0x02, 0x9a, 0x33],
      demo_record\<lparr>signature := Some [0x02, 0x9a, 0x33, 0x10]\<rparr>)"
  by (simp add: encode_def demo_record_signature_step demo_record_encoded MAX_RECORD_SIZE_def)

lemma demo_record_signed:
  "v4_sign demo_host demo_key (RLP_encode (content demo_host demo_record)) =
     [0x02, 0x9a, 0x33, 0x10]"
  by (simp add: demo_record_unsigned_bytes) (simp add: demo_host_def checksum_def demo_key_def)

theorem encode_keeps_seq_witness:
  "seq demo_record = 1 \<and> signature demo_record = None \<and>
   fst (encode demo_host (Some demo_key) demo_record) =
     Inr [0xda, 0x84, 0x02, 0x9a, 0x33, 0x10, 0x01, 0x82, 0x69, 0x64, 0x82, 0x76, 0x34,
          0x89, 0x73, 0x65, 0x63, 0x70, 0x32, 0x35, 0x36, 0x6b, 0x31, 0x83, 0x02, 0x9a, 0x33] \<and>
   seq (snd (encode demo_host (Some demo_key) demo_record)) = 1 \<and>
   signature (snd (encode demo_host (Some demo_key) demo_record)) =
     Some [0x02, 0x9a, 0x33, 0x10]"
  using encode_keeps_seq[of demo_host demo_key demo_record]
  by (simp add: demo_record_encode demo_record_signed) (simp add: demo_record_def)

text \<open>
  C8. When \<^verbatim>\<open>encode(privateKey)\<close> fails on the size check, the record already holds the
  signature computed in the call: it is the record of before with that signature stored,
  so the failure is not atomic, and the record differs from the one before the call
  whenever it did not hold that very signature already (always when it was unsigned).
\<close>

theorem encode_failure_not_atomic:
  assumes "encode H (Some privateKey) r = (Inl RecordTooLarge, r')"
  shows "signature r' = Some (v4_sign H privateKey (RLP_encode (content H r))) \<and>
         r' = r\<lparr>signature := Some (v4_sign H privateKey (RLP_encode (content H r)))\<rparr> \<and>
         (signature r \<noteq> Some (v4_sign H privateKey (RLP_encode (content H r))) \<longrightarrow> r' \<noteq> r)"
proof -
  obtain res r1 where s: "signature_step H (Some privateKey) r = (res, r1)"
    by (cases "signature_step H (Some privateKey) r")
  from signature_step_Some[OF s] assms s show ?thesis
    by (auto simp: encode_def split: if_splits dest: signature_update_same)
qed

lemma large_record_too_large:
  "\<not> length (RLP_encode (InBuf s # content demo_host large_record)) < MAX_RECORD_SIZE"
proof -
  have "InBuf (replicate 300 0) \<in> set (InBuf s # content demo_host large_record)"
    by (simp add: content_def sorted_keys_def sort_by_def keys_def large_record_def demo_host_def
        collate_en_def fold_case_def flatten_entry_def get_ENR_def utf8_def)
  from length_RLP_encode_member[OF this] show ?thesis
    by (simp add: MAX_RECORD_SIZE_def)
qed

lemma large_record_encode:
  "encode demo_host (Some demo_key) large_record =
     (Inl RecordTooLarge,
      large_record\<lparr>signature :=
        Some (v4_sign demo_host demo_key (RLP_encode (content demo_host large_record)))\<rparr>)"
proof -
  have "signature_step demo_host (Some demo_key) large_record =
          (Inr (v4_sign demo_host demo_key (RLP_encode (content demo_host large_record))),
           large_record\<lparr>signature :=
             Some (v4_sign demo_host demo_key (RLP_encode (content demo_host large_record)))\<rparr>)"
    by (simp add: signature_step_def sign_def id_ENR_def get_ENR_def)
       (simp add: large_record_def utf8_def)
  then show ?thesis
    by (simp add: encode_def large_record_too_large)
qed

theorem encode_failure_not_atomic_witness:
  "fst (encode demo_host (Some demo_key) large_record) = Inl RecordTooLarge \<and>
   signature large_record = None \<and>
   signature (snd (encode demo_host (Some demo_key) large_record)) =
     Some (v4_sign demo_host demo_key (RLP_encode (content demo_host large_record))) \<and>
   snd (encode demo_host (Some demo_key) large_record) \<noteq> large_record"
  using encode_failure_not_atomic[OF large_record_encode]
  by (simp add: large_record_encode) (simp add: large_record_def)

subsection \<open>Endpoint views\<close>

text \<open>
  C9. Handed \<^verbatim>\<open>undefined\<close>, the UDP and the TCP setter return at once: no error, and the
  record (entries, sequence number and signature) is the one it was.
\<close>

theorem set_multiaddr_undefined:
  "set_multiaddrUDP L None r = Inr r \<and> set_multiaddrTCP L None r = Inr r"
  by (simp add: set_multiaddrUDP_def set_multiaddrTCP_def set_multiaddr_def)

text \<open>
  C10. In a record with an \<^verbatim>\<open>ip\<close> entry and a \<^verbatim>\<open>udp\<close> (or \<^verbatim>\<open>tcp\<close>) entry of two bytes or more,
  the UDP (or TCP) getter returns the address built from the text
  \<^verbatim>\<open>/ip4/<ip bytes, dotted>/udp/<port>\<close>, whatever \<^verbatim>\<open>ip6\<close>, \<^verbatim>\<open>udp6\<close> and \<^verbatim>\<open>tcp6\<close> entries the record
  has besides; the IPv6 entries are read only when the \<^verbatim>\<open>ip\<close> entry or the port entry is
  absent, and then they alone decide the result.
\<close>

theorem getters_prefer_ip4:
  "(get_ENR r (utf8 ''ip'') = Some ip4 \<and> get_ENR r (utf8 ''udp'') = Some (b0 # b1 # rest) \<longrightarrow>
      get_multiaddrUDP L r =
        map_sum (\<lambda>e. e) Some (Multiaddr L (ip4_string ip4 ''udp'' (unat b0 * 256 + unat b1)))) \<and>
   (get_ENR r (utf8 ''ip'') = Some ip4 \<and> get_ENR r (utf8 ''tcp'') = Some (c0 # c1 # rest') \<longrightarrow>
      get_multiaddrTCP L r =
        map_sum (\<lambda>e. e) Some (Multiaddr L (ip4_string ip4 ''tcp'' (unat c0 * 256 + unat c1)))) \<and>
   (get_ENR r (utf8 ''ip'') = None \<or> get_ENR r (utf8 ''udp'') = None \<longrightarrow>
      get_multiaddrUDP L r = get_multiaddr6 L ''udp'' r) \<and>
   (get_ENR r (utf8 ''ip'') = None \<or> get_ENR r (utf8 ''tcp'') = None \<longrightarrow>
      get_multiaddrTCP L r = get_multiaddr6 L ''tcp'' r)"
  by (auto simp: get_multiaddrUDP_def get_multiaddrTCP_def get_multiaddr_def readUInt16BE_def
      split: option.splits)

lemma endpoint_record_entries:
  "get_ENR endpoint_record (utf8 ''ip'') = Some [192, 0, 2, 1]"
  "get_ENR endpoint_record (utf8 ''udp'') = Some [0x76, 0x5f]"
  "get_ENR endpoint_record (utf8 ''tcp'') = Some [0x76, 0x5f]"
  "get_ENR endpoint_record (utf8 ''ip6'') =
     Some [0x20, 0x01, 0x0d, 0xb8, 0, 0, 0, 0, 0, 0, 0, 0, 0, 0, 0, 1]"
  "get_ENR endpoint_record (utf8 ''udp6'') = Some [0x76, 0x60]"
  by (simp_all add: get_ENR_def endpoint_record_def utf8_def)

lemma ip4_string_example:
  "ip4_string [192, 0, 2, 1] transport 30303 = ''/ip4/192.0.2.1/'' @ transport @ ''/30303''"
  by (simp add: ip4_string_def toString_radix.simps digit_char_def)

theorem getters_prefer_ip4_witness:
  "get_ENR endpoint_record (utf8 ''ip6'') =
     Some [0x20, 0x01, 0x0d, 0xb8, 0, 0, 0, 0, 0, 0, 0, 0, 0, 0, 0, 1] \<and>
   get_ENR endpoint_record (utf8 ''udp6'') = Some [0x76, 0x60] \<and>
   get_multiaddrUDP text_lib endpoint_record = Inr (Some ''/ip4/192.0.2.1/udp/30303'') \<and>
   get_multiaddrTCP text_lib endpoint_record = Inr (Some ''/ip4/192.0.2.1/tcp/30303'')"
  using getters_prefer_ip4[of endpoint_record "[192, 0, 2, 1]" "0x76" "0x5f" "[]" text_lib
      "0x76" "0x5f" "[]"]
  by (simp add: endpoint_record_entries text_lib_def ip4_string_example)

text \<open>
  What the guard of the setters rejects: an address that has not two segments and, as
  well, has no second segment named after the transport.
\<close>

lemma set_multiaddr_rejects:
  "(set_multiaddr L transport (Some m) r = Inl InvalidEndpoint) =
     (length (protoNames L m) \<noteq> 2 \<and> \<not> second_is (protoNames L m) transport)"
  by (auto simp: set_multiaddr_def split: list.splits)

text \<open>
  C2. The claim is that a setter accepts exactly the addresses of two segments whose
  second is the expected transport. The guard of the source joins its two tests with
  \<^verbatim>\<open>&&\<close>, so it rejects only an address that fails both: the UDP setter, handed the TCP
  address \<^verbatim>\<open>/ip4/192.0.2.1/tcp/30303\<close>, raises nothing and writes the \<^verbatim>\<open>ip\<close> and \<^verbatim>\<open>udp\<close> entries,
  and it does the same for an address of three segments whose second is \<^verbatim>\<open>udp\<close>.
\<close>

theorem set_multiaddrUDP_accepts_tcp:
  "set_multiaddrUDP segments_lib
     (Some [Segment 4 ''ip4'' [192, 0, 2, 1], Segment 6 ''tcp'' [0x76, 0x5f]]) demo_record =
     Inr \<lparr>entries = [(utf8 ''secp256k1'', demo_key), (utf8 ''id'', utf8 ''v4''),
                     (utf8 ''ip'', [192, 0, 2, 1]), (utf8 ''udp'', [0x76, 0x5f])],
          seq = 3, signature = None\<rparr> \<and>
   set_multiaddrUDP segments_lib
     (Some [Segment 4 ''ip4'' [192, 0, 2, 1], Segment 273 ''udp'' [0x76, 0x5f],
            Segment 421 ''p2p'' [0x01]]) demo_record =
     Inr \<lparr>entries = [(utf8 ''secp256k1'', demo_key), (utf8 ''id'', utf8 ''v4''),
                     (utf8 ''ip'', [192, 0, 2, 1]), (utf8 ''udp'', [0x76, 0x5f])],
          seq = 3, signature = None\<rparr>"
  by (simp add: set_multiaddrUDP_def set_multiaddr_def segments_lib_def second_is_def
      set_ENR_def demo_record_def utf8_def)

subsection \<open>encode: the order of the keys\<close>

lemma insert_by_insort:
  assumes "\<forall>y\<in>set ys. (cmp x y \<le> 0) = (x \<le> y)"
  shows "insert_by cmp x ys = insort x ys"
  using assms by (induction ys) auto

lemma set_insert_by: "set (insert_by cmp x ys) = insert x (set ys)"
  by (induction ys) auto

lemma set_sort_by: "set (sort_by cmp xs) = set xs"
  by (induction xs) (auto simp: sort_by_def set_insert_by)

lemma sort_by_sort:
  assumes "\<forall>a\<in>set xs. \<forall>b\<in>set xs. (cmp a b \<le> 0) = (a \<le> b)"
  shows "sort_by cmp xs = sort xs"
  using assms
proof (induction xs)
  case Nil
  then show ?case by (simp add: sort_by_def)
next
  case (Cons x xs)
  then have ih: "sort_by cmp xs = sort xs" by simp
  have "sort_by cmp (x # xs) = insert_by cmp x (sort_by cmp xs)"
    by (simp add: sort_by_def)
  also have "\<dots> = insert_by cmp x (sort xs)" by (simp add: ih)
  also have "\<dots> = insort x (sort xs)"
    using Cons.prems by (intro insert_by_insort) simp
  finally show ?case by simp
qed

text \<open>
  C1, as amended. \<^verbatim>\<open>encode\<close> sorts the keys with the host's \<^verbatim>\<open>localeCompare\<close>, not with a
  byte-wise comparison. The keys are flattened in byte-wise lexicographic order whenever
  \<^verbatim>\<open>localeCompare\<close> orders the keys of the record as the byte-wise comparison does.
\<close>

theorem encode_key_order:
  assumes "\<forall>a\<in>set (keys r). \<forall>b\<in>set (keys r). (localeCompare H a b \<le> 0) = (a \<le> b)"
  shows "sorted_keys H r = sort (keys r) \<and>
         content H r = InNum (Number (seq r)) # concat (map (flatten_entry r) (sort (keys r)))"
  using sort_by_sort[OF assms] by (simp add: sorted_keys_def content_def)

theorem encode_key_order_witness:
  "sorted_keys demo_host demo_record = [utf8 ''id'', utf8 ''secp256k1'']"
proof -
  have "\<forall>a\<in>set (keys demo_record). \<forall>b\<in>set (keys demo_record).
          (localeCompare demo_host a b \<le> 0) = (a \<le> b)"
    by (simp add: keys_def demo_record_def demo_host_def collate_en_def fold_case_def utf8_def)
  from encode_key_order[OF this] show ?thesis
    by (simp add: keys_def demo_record_def utf8_def)
qed

text \<open>
  C1, as stated, fails: where the host's collation puts \<^verbatim>\<open>a\<close> before \<^verbatim>\<open>B\<close>, as that of an
  English locale does, \<^verbatim>\<open>encode\<close> flattens the key \<^verbatim>\<open>a\<close> before the key \<^verbatim>\<open>B\<close>, while byte-wise
  \<^verbatim>\<open>B\<close> (0x42) is below \<^verbatim>\<open>a\<close> (0x61).
\<close>

theorem encode_key_order_counterexample:
  "localeCompare demo_host (utf8 ''a'') (utf8 ''B'') < 0 \<and>
   utf8 ''B'' < utf8 ''a'' \<and>
   content demo_host mixed_case_record =
     [InNum (Finite 1), InStr (utf8 ''a''), InBuf [0x02], InStr (utf8 ''B''), InBuf [0x01]]"
  by (simp add: content_def sorted_keys_def sort_by_def keys_def mixed_case_record_def demo_host_def
      collate_en_def fold_case_def flatten_entry_def get_ENR_def utf8_def Number_def)

subsection \<open>decode\<close>

lemma assignments_error: "assignments H kvs = Inl e \<Longrightarrow> e = TypeError"
  by (induction H kvs rule: assignments.induct) (auto split: option.splits sum.splits)

lemma assignments_even: "assignments H kvs = Inr ps \<Longrightarrow> even (length kvs)"
  by (induction H kvs arbitrary: ps rule: assignments.induct)
     (auto split: option.splits sum.splits)

lemma toBigIntBE_item_error: "toBigIntBE_item H sq = Inl e \<Longrightarrow> e = TypeError"
  by (auto simp: toBigIntBE_item_def split: rlp.splits option.splits)

lemma verify_error:
  "verify H r data sg = Inl e \<Longrightarrow> e = TypeError \<or> e = UnsupportedIdentityScheme"
  by (auto simp: verify_def publicKey_def id_ENR_def split: option.splits if_splits)

lemma verify_item_error:
  "verify_item H r data sg = Inl e \<Longrightarrow> e = TypeError \<or> e = UnsupportedIdentityScheme"
  by (auto simp: verify_item_def publicKey_def id_ENR_def
      split: rlp.splits option.splits sum.splits if_splits dest: verify_error)

lemma verify_item_True:
  "verify_item H r data sg = Inr True \<Longrightarrow> \<exists>s. sg = Buf s \<and> verify H r data s = Inr True"
  by (auto simp: verify_item_def split: rlp.splits sum.splits if_splits)

lemma decode_Inr:
  assumes "decode H encoded = Inr r"
  shows "\<exists>sg sq kvs ps.
           RLP_decode encoded = Some (Arr (Buf sg # sq # kvs)) \<and>
           assignments H kvs = Inr ps \<and>
           entries r = new_Map (Object_entries H ps) \<and>
           toBigIntBE_item H sq = Inr (seq r) \<and>
           signature r = Some sg \<and>
           verify H r (rlp_encode (Arr (sq # kvs))) sg = Inr True"
proof -
  from assms obtain decoded where d: "RLP_decode encoded = Some (Arr decoded)"
    by (auto simp: decode_def split: option.splits rlp.splits)
  from assms d obtain sg sq kvs where l: "decoded = sg # sq # kvs"
    by (auto simp: decode_def split: list.splits if_splits)
  from assms d l obtain ps where ps: "assignments H kvs = Inr ps"
    by (auto simp: decode_def split: sum.splits if_splits)
  from assms d l ps obtain n where n: "toBigIntBE_item H sq = Inr n"
    by (auto simp: decode_def split: sum.splits if_splits)
  let ?enr = "\<lparr>entries = new_Map (Object_entries H ps), seq = n, signature = signature_of sg\<rparr>"
  from assms d l ps n
  have v: "verify_item H ?enr (rlp_encode (Arr (sq # kvs))) sg = Inr True" and r: "r = ?enr"
    by (auto simp: decode_def split: sum.splits if_splits)
  from verify_item_True[OF v] obtain s where
    s: "sg = Buf s" and vs: "verify H ?enr (rlp_encode (Arr (sq # kvs))) s = Inr True"
    by blast
  from d l s have 1: "RLP_decode encoded = Some (Arr (Buf s # sq # kvs))" by simp
  from r s have 2: "signature r = Some s" by (simp add: signature_of_def)
  from r have 3: "entries r = new_Map (Object_entries H ps)" by simp
  from r n have 4: "toBigIntBE_item H sq = Inr (seq r)" by simp
  from vs r have 5: "verify H r (rlp_encode (Arr (sq # kvs))) s = Inr True" by simp
  from 1 ps 3 4 2 5 show ?thesis by blast
qed

lemma decode_Inl:
  assumes "decode H encoded = Inl e"
  shows "e = InvalidSignature \<or> e = MalformedRecord \<or> e = UnsupportedIdentityScheme \<or> e = TypeError"
  using assms
  by (auto simp: decode_def split: option.splits rlp.splits list.splits sum.splits if_splits
      dest: assignments_error toBigIntBE_item_error verify_item_error)

lemma decode_InvalidSignature:
  "(decode H encoded = Inl InvalidSignature) =
     (\<exists>sg sq kvs ps n.
        RLP_decode encoded = Some (Arr (sg # sq # kvs)) \<and>
        assignments H kvs = Inr ps \<and>
        toBigIntBE_item H sq = Inr n \<and>
        verify_item H
          \<lparr>entries = new_Map (Object_entries H ps), seq = n, signature = signature_of sg\<rparr>
          (rlp_encode (Arr (sq # kvs))) sg = Inr False)"
  (is "?lhs = ?rhs")
proof
  assume a: ?lhs
  then obtain decoded where d: "RLP_decode encoded = Some (Arr decoded)"
    by (auto simp: decode_def split: option.splits rlp.splits)
  from a d obtain sg sq kvs where l: "decoded = sg # sq # kvs"
    by (auto simp: decode_def split: list.splits if_splits)
  from a d l obtain ps where ps: "assignments H kvs = Inr ps"
    by (auto simp: decode_def split: sum.splits if_splits dest: assignments_error)
  from a d l ps obtain n where n: "toBigIntBE_item H sq = Inr n"
    by (auto simp: decode_def split: sum.splits if_splits dest: toBigIntBE_item_error)
  from a d l ps n
  have "verify_item H
          \<lparr>entries = new_Map (Object_entries H ps), seq = n, signature = signature_of sg\<rparr>
          (rlp_encode (Arr (sq # kvs))) sg = Inr False"
    by (auto simp: decode_def split: sum.splits if_splits dest: verify_item_error)
  with d l ps n show ?rhs by blast
next
  assume ?rhs
  then obtain sg sq kvs ps n where
    d: "RLP_decode encoded = Some (Arr (sg # sq # kvs))" and
    ps: "assignments H kvs = Inr ps" and
    n: "toBigIntBE_item H sq = Inr n" and
    v: "verify_item H
          \<lparr>entries = new_Map (Object_entries H ps), seq = n, signature = signature_of sg\<rparr>
          (rlp_encode (Arr (sq # kvs))) sg = Inr False"
    by blast
  from assignments_even[OF ps] have "length (sg # sq # kvs) mod 2 = 0"
    by auto
  with d ps n v show ?lhs
    by (simp add: decode_def del: rlp_encode.simps)
qed

text \<open>
  C5, as amended. For every input, \<^verbatim>\<open>decode\<close> either returns a record, and then the input
  is a list \<^verbatim>\<open>[signature, seq, k0, v0, ...]\<close> whose first item is a byte string, the record
  holds that signature, the sequence number and the entries made of the items, and
  \<^verbatim>\<open>verify\<close> (the record's scheme and public key) accepted the signature over the encoding
  of \<^verbatim>\<open>[seq, k0, v0, ...]\<close>, the items as they were received; or it fails and returns no
  record. The failure is InvalidSignature exactly when the input parsed and the
  verification returned false; otherwise it is MalformedRecord,
  UnsupportedIdentityScheme or an exception of the runtime.
\<close>

theorem decode_verified_or_fails:
  "(case decode H encoded of
      Inr r \<Rightarrow>
        (\<exists>sg sq kvs ps.
           RLP_decode encoded = Some (Arr (Buf sg # sq # kvs)) \<and>
           assignments H kvs = Inr ps \<and>
           entries r = new_Map (Object_entries H ps) \<and>
           toBigIntBE_item H sq = Inr (seq r) \<and>
           signature r = Some sg \<and>
           verify H r (rlp_encode (Arr (sq # kvs))) sg = Inr True)
    | Inl e \<Rightarrow>
        (e = InvalidSignature \<or> e = MalformedRecord \<or> e = UnsupportedIdentityScheme \<or> e = TypeError) \<and>
        (e = InvalidSignature) =
          (\<exists>sg sq kvs ps n.
             RLP_decode encoded = Some (Arr (sg # sq # kvs)) \<and>
             assignments H kvs = Inr ps \<and>
             toBigIntBE_item H sq = Inr n \<and>
             verify_item H
               \<lparr>entries = new_Map (Object_entries H ps), seq = n, signature = signature_of sg\<rparr>
               (rlp_encode (Arr (sq # kvs))) sg = Inr False))"
proof (cases "decode H encoded")
  case (Inl e)
  from decode_Inl[OF Inl] decode_InvalidSignature[of H encoded] Inl show ?thesis
    by auto
next
  case (Inr r)
  from decode_Inr[OF Inr] Inr show ?thesis by simp
qed

lemma demo_encoding_items:
  "RLP_decode
     [0xda, 0x84, 0x02, 0x9a, 0x33, 0x10, 0x01, 0x82, 0x69, 0x64, 0x82, 0x76, 0x34,
      0x89, 0x73, 0x65, 0x63, 0x70, 0x32, 0x35, 0x36, 0x6b, 0x31, 0x83, 0x02, 0x9a, 0x33] =
     Some (Arr [Buf [0x02, 0x9a, 0x33, 0x10], Buf [0x01], Buf (utf8 ''id''), Buf (utf8 ''v4''),
                Buf (utf8 ''secp256k1''), Buf demo_key])"
  by (simp add: RLP_decode_def rlp_header_def rlp_items.simps utf8_def demo_key_def)

lemma demo_record_decode:
  "decode demo_host
     [0xda, 0x84, 0x02, 0x9a, 0x33, 0x10, 0x01, 0x82, 0x69, 0x64, 0x82, 0x76, 0x34,
      0x89, 0x73, 0x65, 0x63, 0x70, 0x32, 0x35, 0x36, 0x6b, 0x31, 0x83, 0x02, 0x9a, 0x33] =
     Inr \<lparr>entries = [(utf8 ''id'', utf8 ''v4''), (utf8 ''secp256k1'', demo_key)],
          seq = 1, signature = Some [0x02, 0x9a, 0x33, 0x10]\<rparr>"
  apply (simp add: decode_def demo_encoding_items)
  apply (simp add: Buffer_from_def new_Map_def toBigIntBE_item_def verify_item_def
      signature_of_def demo_host_def toBigIntBE_def)
  apply (simp add: utf8_def verify_def publicKey_def id_ENR_def get_ENR_def demo_key_def)
  apply (simp add: encodeLength_def checksum_def)
  apply (simp add: new_Map_def signature_of_def demo_host_def)
  done

theorem decode_verified_or_fails_witness:
  "decode demo_host
     [0xda, 0x84, 0x02, 0x9a, 0x33, 0x10, 0x01, 0x82, 0x69, 0x64, 0x82, 0x76, 0x34,
      0x89, 0x73, 0x65, 0x63, 0x70, 0x32, 0x35, 0x36, 0x6b, 0x31, 0x83, 0x02, 0x9a, 0x33] =
     Inr \<lparr>entries = [(utf8 ''id'', utf8 ''v4''), (utf8 ''secp256k1'', demo_key)],
          seq = 1, signature = Some [0x02, 0x9a, 0x33, 0x10]\<rparr> \<and>
   verify demo_host
     \<lparr>entries = [(utf8 ''id'', utf8 ''v4''), (utf8 ''secp256k1'', demo_key)],
      seq = 1, signature = Some [0x02, 0x9a, 0x33, 0x10]\<rparr>
     (rlp_encode (Arr [Buf [0x01], Buf (utf8 ''id''), Buf (utf8 ''v4''),
                       Buf (utf8 ''secp256k1''), Buf demo_key]))
     [0x02, 0x9a, 0x33, 0x10] = Inr True"
  using decode_verified_or_fails[where H = demo_host and encoded =
     "[0xda, 0x84, 0x02, 0x9a, 0x33, 0x10, 0x01, 0x82, 0x69, 0x64, 0x82, 0x76, 0x34,
      0x89, 0x73, 0x65, 0x63, 0x70, 0x32, 0x35, 0x36, 0x6b, 0x31, 0x83, 0x02, 0x9a, 0x33]"]
  by (auto simp: demo_record_decode demo_encoding_items simp del: rlp_encode.simps)

text \<open>
  C5, as stated, fails twice. The encoding \<open>0xc1 0x01\<close> of a list with one element is
  rejected by the assertion on the number of elements, a MalformedRecord and not an
  InvalidSignature. And the signature is checked against the items in the order of the
  input, not against the sorted key/value pairs: with a signature that depends on the
  order of the signed bytes, the list \<^verbatim>\<open>[signature, 1, "secp256k1", key, "id", "v4"]\<close>, signed
  in that order, is accepted, and the signature of the record that \<^verbatim>\<open>decode\<close> returns does
  not verify over the sequence number and the sorted key/value pairs of that record.
\<close>

theorem decode_counterexample:
  "decode demo_host [0xc1, 0x01] = Inl MalformedRecord \<and>
   decode strict_host
     [0xda, 0x84, 0x02, 0x9a, 0x33, 0x60, 0x01,
      0x89, 0x73, 0x65, 0x63, 0x70, 0x32, 0x35, 0x36, 0x6b, 0x31, 0x83, 0x02, 0x9a, 0x33,
      0x82, 0x69, 0x64, 0x82, 0x76, 0x34] =
     Inr \<lparr>entries = [(utf8 ''secp256k1'', demo_key), (utf8 ''id'', utf8 ''v4'')],
          seq = 1, signature = Some [0x02, 0x9a, 0x33, 0x60]\<rparr> \<and>
   content strict_host
     \<lparr>entries = [(utf8 ''secp256k1'', demo_key), (utf8 ''id'', utf8 ''v4'')],
      seq = 1, signature = Some [0x02, 0x9a, 0x33, 0x60]\<rparr> =
     [InNum (Finite 1), InStr (utf8 ''id''), InBuf (utf8 ''v4''),
      InStr (utf8 ''secp256k1''), InBuf demo_key] \<and>
   verify strict_host
     \<lparr>entries = [(utf8 ''secp256k1'', demo_key), (utf8 ''id'', utf8 ''v4'')],
      seq = 1, signature = Some [0x02, 0x9a, 0x33, 0x60]\<rparr>
     (RLP_encode [InNum (Finite 1), InStr (utf8 ''id''), InBuf (utf8 ''v4''),
                  InStr (utf8 ''secp256k1''), InBuf demo_key])
     [0x02, 0x9a, 0x33, 0x60] = Inr False"
proof -
  have 1: "decode demo_host [0xc1, 0x01] = Inl MalformedRecord"
    by (simp add: decode_def RLP_decode_def rlp_header_def rlp_items.simps)
  have items: "RLP_decode
     [0xda, 0x84, 0x02, 0x9a, 0x33, 0x60, 0x01,
      0x89, 0x73, 0x65, 0x63, 0x70, 0x32, 0x35, 0x36, 0x6b, 0x31, 0x83, 0x02, 0x9a, 0x33,
      0x82, 0x69, 0x64, 0x82, 0x76, 0x34] =
     Some (Arr [Buf [0x02, 0x9a, 0x33, 0x60], Buf [0x01], Buf (utf8 ''secp256k1''), Buf demo_key,
                Buf (utf8 ''id''), Buf (utf8 ''v4'')])"
    by (simp add: RLP_decode_def rlp_header_def rlp_items.simps utf8_def demo_key_def)
  have 2: "decode strict_host
     [0xda, 0x84, 0x02, 0x9a, 0x33, 0x60, 0x01,
      0x89, 0x73, 0x65, 0x63, 0x70, 0x32, 0x35, 0x36, 0x6b, 0x31, 0x83, 0x02, 0x9a, 0x33,
      0x82, 0x69, 0x64, 0x82, 0x76, 0x34] =
     Inr \<lparr>entries = [(utf8 ''secp256k1'', demo_key), (utf8 ''id'', utf8 ''v4'')],
          seq = 1, signature = Some [0x02, 0x9a, 0x33, 0x60]\<rparr>"
    apply (simp add: decode_def items)
    apply (simp add: Buffer_from_def new_Map_def toBigIntBE_item_def verify_item_def
        signature_of_def strict_host_def demo_host_def toBigIntBE_def)
    apply (simp add: utf8_def verify_def publicKey_def id_ENR_def get_ENR_def demo_key_def)
    apply (simp add: encodeLength_def chained_def)
    apply (simp add: new_Map_def signature_of_def strict_host_def demo_host_def)
    done
  have 3: "content strict_host
     \<lparr>entries = [(utf8 ''secp256k1'', demo_key), (utf8 ''id'', utf8 ''v4'')],
      seq = 1, signature = Some [0x02, 0x9a, 0x33, 0x60]\<rparr> =
     [InNum (Finite 1), InStr (utf8 ''id''), InBuf (utf8 ''v4''),
      InStr (utf8 ''secp256k1''), InBuf demo_key]"
    by (simp add: content_def sorted_keys_def sort_by_def keys_def strict_host_def demo_host_def
        collate_en_def fold_case_def flatten_entry_def get_ENR_def utf8_def Number_def
        demo_key_def)
  have 4: "verify strict_host
     \<lparr>entries = [(utf8 ''secp256k1'', demo_key), (utf8 ''id'', utf8 ''v4'')],
      seq = 1, signature = Some [0x02, 0x9a, 0x33, 0x60]\<rparr>
     (RLP_encode [InNum (Finite 1), InStr (utf8 ''id''), InBuf (utf8 ''v4''),
                  InStr (utf8 ''secp256k1''), InBuf demo_key])
     [0x02, 0x9a, 0x33, 0x60] = Inr False"
    apply (simp add: verify_def publicKey_def id_ENR_def get_ENR_def strict_host_def demo_host_def)
    apply (simp add: RLP_encode_def encodeLength_def utf8_def demo_key_def be_bytes.simps
        chained_def)
    done
  from 1 2 3 4 show ?thesis by (intro conjI)
qed

subsection \<open>The round trip\<close>

text \<open>
  First the codec: a list of byte strings, encoded and decoded, is the list again (as long
  as the payload is shorter than \<open>2^64\<close> bytes, the longest a header can announce).
\<close>

lemma toBigIntBE_append: "toBigIntBE (xs @ [b]) = toBigIntBE xs * 256 + unat b"
  by (simp add: toBigIntBE_def)

lemma unat_of_nat_byte: "n < 256 \<Longrightarrow> unat (of_nat n :: byte) = n"
  by (simp add: unat_of_nat)

lemma toBigIntBE_be_bytes: "toBigIntBE (be_bytes n) = n"
proof (induction n rule: be_bytes.induct)
  case (1 n)
  show ?case
  proof (cases "n = 0")
    case True
    then show ?thesis by (simp add: be_bytes.simps toBigIntBE_def)
  next
    case False
    with 1 have "toBigIntBE (be_bytes (n div 256)) = n div 256" by simp
    with False show ?thesis
      by (subst be_bytes.simps) (simp add: toBigIntBE_append unat_of_nat_byte)
  qed
qed

lemma be_bytes_eq_Nil: "(be_bytes n = []) = (n = 0)"
  by (subst be_bytes.simps) simp

lemma be_bytes_0: "be_bytes 0 = []"
  by (simp add: be_bytes_eq_Nil)

lemma hd_be_bytes: "n \<noteq> 0 \<Longrightarrow> hd (be_bytes n) \<noteq> 0"
proof (induction n rule: be_bytes.induct)
  case (1 n)
  show ?case
  proof (cases "n div 256 = 0")
    case True
    with 1(2) have "n < 256" "n mod 256 = n"
      by (auto simp: div_eq_0_iff)
    with 1(2) True have "be_bytes n = [of_nat n]"
      by (subst be_bytes.simps) (simp add: be_bytes_eq_Nil)
    moreover from \<open>n < 256\<close> 1(2) have "(of_nat n :: byte) \<noteq> 0"
      by (metis unat_of_nat_byte unat_0)
    ultimately show ?thesis by simp
  next
    case False
    with 1 have "hd (be_bytes (n div 256)) \<noteq> 0" by simp
    moreover from False have "be_bytes (n div 256) \<noteq> []" by (simp add: be_bytes_eq_Nil)
    ultimately show ?thesis using 1(2)
      by (subst be_bytes.simps) simp
  qed
qed

lemma length_be_bytes: "n < 256 ^ k \<Longrightarrow> length (be_bytes n) \<le> k"
proof (induction n arbitrary: k rule: be_bytes.induct)
  case (1 n)
  show ?case
  proof (cases "n = 0")
    case True
    then show ?thesis by (simp add: be_bytes_0)
  next
    case False
    with 1(2) obtain j where k: "k = Suc j" by (cases k) auto
    with 1(2) have "n div 256 < 256 ^ j"
      by (simp add: less_mult_imp_div_less mult.commute)
    with 1(1)[OF False] have "length (be_bytes (n div 256)) \<le> j" by simp
    with False k show ?thesis
      by (subst be_bytes.simps) simp
  qed
qed

lemma length_be_bytes_8: "n < 2 ^ 64 \<Longrightarrow> length (be_bytes n) \<le> 8"
  using length_be_bytes[of n 8] by simp

lemma encodeLength_short:
  "len < 56 \<Longrightarrow> encodeLength len offset = [of_nat (len + offset)]"
  by (simp add: encodeLength_def)

lemma encodeLength_long:
  "\<not> len < 56 \<Longrightarrow>
     encodeLength len offset = of_nat (offset + 55 + length (be_bytes len)) # be_bytes len"
  by (simp add: encodeLength_def)

lemma be_bytes_long:
  assumes "\<not> len < 56" "len < 2 ^ 64"
  shows "1 \<le> length (be_bytes len)" "length (be_bytes len) \<le> 8" "hd (be_bytes len) \<noteq> 0"
proof -
  from assms(1) have "len \<noteq> 0" by auto
  then have "be_bytes len \<noteq> []" by (simp add: be_bytes_eq_Nil)
  then show "1 \<le> length (be_bytes len)" by (cases "be_bytes len") auto
  show "length (be_bytes len) \<le> 8" by (rule length_be_bytes_8[OF assms(2)])
  show "hd (be_bytes len) \<noteq> 0" by (rule hd_be_bytes[OF \<open>len \<noteq> 0\<close>])
qed

text \<open>The header of an encoded byte string, read back.\<close>

lemma rlp_header_single:
  assumes "b < 0x80"
  shows "rlp_header (b # rest) = Some (False, 0, 1)"
proof -
  from assms have "unat b < 0x80" by (simp add: word_less_nat_alt)
  then show ?thesis by (simp add: rlp_header_def)
qed

lemma rlp_header_short_string:
  assumes "length bs < 56" and "\<And>b. bs = [b] \<Longrightarrow> \<not> b < 0x80"
  shows "rlp_header (of_nat (length bs + 128) # bs @ rest) = Some (False, 1, length bs)"
proof -
  from assms(1) have f: "unat (of_nat (length bs + 128) :: byte) = length bs + 128"
    by (intro unat_of_nat_byte) simp
  have "\<not> (length bs = 1 \<and> unat (hd (bs @ rest)) < 0x80)"
  proof
    assume a: "length bs = 1 \<and> unat (hd (bs @ rest)) < 0x80"
    then obtain b where b: "bs = [b]" by (cases bs) auto
    with a have "unat b < 0x80" by simp
    then have "b < 0x80" by (simp add: word_less_nat_alt)
    with assms(2)[OF b] show False by simp
  qed
  with f assms(1) show ?thesis
    by (auto simp: rlp_header_def simp del: of_nat_add)
qed

lemma rlp_header_long:
  assumes "\<not> len < 56" "len < 2 ^ 64" "len \<le> length payload"
  shows "rlp_header (of_nat (183 + length (be_bytes len)) # be_bytes len @ payload) =
           Some (False, 1 + length (be_bytes len), len)"
    and "rlp_header (of_nat (247 + length (be_bytes len)) # be_bytes len @ payload) =
           Some (True, 1 + length (be_bytes len), len)"
proof -
  note l = be_bytes_long[OF assms(1,2)]
  from l have f: "unat (of_nat (183 + length (be_bytes len)) :: byte) =
                   183 + length (be_bytes len)"
    by (intro unat_of_nat_byte) simp
  from l have g: "unat (of_nat (247 + length (be_bytes len)) :: byte) =
                   247 + length (be_bytes len)"
    by (intro unat_of_nat_byte) simp
  from l have nonempty: "be_bytes len \<noteq> []" by auto
  then have h: "hd (be_bytes len @ payload) = hd (be_bytes len)" by simp
  show "rlp_header (of_nat (183 + length (be_bytes len)) # be_bytes len @ payload) =
           Some (False, 1 + length (be_bytes len), len)"
    using l assms(3) nonempty
    by (simp add: rlp_header_def f h toBigIntBE_be_bytes del: of_nat_add)
  show "rlp_header (of_nat (247 + length (be_bytes len)) # be_bytes len @ payload) =
           Some (True, 1 + length (be_bytes len), len)"
    using l assms(3) nonempty
    by (simp add: rlp_header_def g h toBigIntBE_be_bytes del: of_nat_add)
qed

lemma rlp_header_short_list:
  assumes "len < 56" "len \<le> length payload"
  shows "rlp_header (of_nat (len + 192) # payload) = Some (True, 1, len)"
proof -
  from assms(1) have f: "unat (of_nat (len + 192) :: byte) = len + 192"
    by (intro unat_of_nat_byte) simp
  with assms show ?thesis by (simp add: rlp_header_def del: of_nat_add)
qed

text \<open>One encoded byte string at the front of a payload is read back, and the rest is left.\<close>

lemma rlp_encode_Buf_not_Nil: "rlp_encode (Buf bs) \<noteq> []"
  by (cases bs; cases "tl bs") (auto simp: encodeLength_def)

lemma rlp_items_step:
  assumes "rlp_header inner = Some (False, off, len)"
  shows "rlp_items inner =
           map_option (Cons (Buf (take len (drop off inner)))) (rlp_items (drop (off + len) inner))"
proof -
  from assms have "inner \<noteq> []" by (auto simp: rlp_header_def)
  with assms show ?thesis by (subst rlp_items.simps) simp
qed

lemma rlp_encode_Buf_cases:
  obtains (single) b where "bs = [b]" "b < 0x80" "rlp_encode (Buf bs) = [b]"
    | (short) "length bs < 56" "\<And>b. bs = [b] \<Longrightarrow> \<not> b < 0x80"
        "rlp_encode (Buf bs) = of_nat (length bs + 128) # bs"
    | (long) "\<not> length bs < 56"
        "rlp_encode (Buf bs) = of_nat (183 + length (be_bytes (length bs))) # be_bytes (length bs) @ bs"
proof (cases "length bs < 56")
  case True
  show ?thesis
  proof (cases "\<exists>b. bs = [b] \<and> b < 0x80")
    case True
    then show ?thesis using single by auto
  next
    case False
    with \<open>length bs < 56\<close> have "rlp_encode (Buf bs) = of_nat (length bs + 128) # bs"
      by (cases bs; cases "tl bs") (auto simp: encodeLength_short simp del: of_nat_add)
    with False \<open>length bs < 56\<close> show ?thesis using short by auto
  qed
next
  case False
  then have "rlp_encode (Buf bs) =
      of_nat (183 + length (be_bytes (length bs))) # be_bytes (length bs) @ bs"
    by (cases bs; cases "tl bs") (auto simp: encodeLength_long simp del: of_nat_add)
  with False show ?thesis using long by auto
qed

lemma rlp_items_Buf_step:
  assumes "length bs < 2 ^ 64"
  shows "rlp_items (rlp_encode (Buf bs) @ rest) = map_option (Cons (Buf bs)) (rlp_items rest)"
proof (cases bs rule: rlp_encode_Buf_cases)
  case (single b)
  from rlp_items_step[OF rlp_header_single[OF single(2), of rest]] single
  show ?thesis by simp
next
  case short
  from rlp_items_step[OF rlp_header_short_string[OF short(1,2), of rest]] short(3)
  show ?thesis by (simp del: of_nat_add)
next
  case long
  from rlp_items_step[OF rlp_header_long(1)[OF long(1) assms, of "bs @ rest"]] long(2)
  show ?thesis by (simp del: of_nat_add)
qed

lemma rlp_items_Bufs:
  assumes "\<forall>b\<in>set bss. length b < 2 ^ 64"
  shows "rlp_items (concat (map (\<lambda>b. rlp_encode (Buf b)) bss)) = Some (map Buf bss)"
  using assms
proof (induction bss)
  case Nil
  then show ?case by (simp add: rlp_items.simps)
next
  case (Cons b bss)
  then show ?case by (simp add: rlp_items_Buf_step del: rlp_encode.simps)
qed

lemma length_member_concat:
  "b \<in> set bss \<Longrightarrow> length b \<le> length (concat (map (\<lambda>b. rlp_encode (Buf b)) bss))"
  using length_concat_member[of b bss "\<lambda>b. rlp_encode (Buf b)"] length_rlp_encode_Buf[of b]
  by (simp del: rlp_encode.simps)

lemma RLP_decode_encode:
  assumes "length (concat (map (\<lambda>b. rlp_encode (Buf b)) bss)) < 2 ^ 64"
  shows "RLP_decode (rlp_encode (Arr (map Buf bss))) = Some (Arr (map Buf bss))"
proof -
  let ?body = "concat (map (\<lambda>b. rlp_encode (Buf b)) bss)"
  have body: "concat (map rlp_encode (map Buf bss)) = ?body"
    by (simp add: comp_def del: rlp_encode.simps)
  have items: "rlp_items ?body = Some (map Buf bss)"
  proof (rule rlp_items_Bufs, rule ballI)
    fix b assume "b \<in> set bss"
    from length_member_concat[OF this] assms show "length b < 2 ^ 64" by simp
  qed
  show ?thesis
  proof (cases "length ?body < 56")
    case True
    then show ?thesis
      by (simp add: comp_def RLP_decode_def encodeLength_short
          rlp_header_short_list[OF True order_refl] items del: of_nat_add rlp_encode.simps(1))
  next
    case False
    then show ?thesis
      by (simp add: comp_def RLP_decode_def encodeLength_long
          rlp_header_long(2)[OF False assms order_refl] items del: of_nat_add rlp_encode.simps(1))
  qed
qed

text \<open>
  Then the record. What \<^verbatim>\<open>encode(privateKey)\<close> returns decodes to a record with the same
  entries, signature and node identifier, whose sequence number is the double that
  \<^verbatim>\<open>Number(this.seq)\<close> gave, on a host where the text of each key of the record is the key
  and the object built from the record's entries lists them all.
\<close>

lemma toBuffer_flatten_entry: "map toBuffer (flatten_entry r k) = [k, value_of r k]"
  by (simp add: flatten_entry_def value_of_def split: option.splits)

lemma toBuffer_content:
  assumes "Number (seq r) = Finite m"
  shows "map toBuffer (content H r) =
           be_bytes m # concat (map (\<lambda>k. [k, value_of r k]) (sorted_keys H r))"
  using assms
  by (simp add: content_def map_concat comp_def toBuffer_flatten_entry)

lemma RLP_encode_buffers: "RLP_encode items = rlp_encode (Arr (map Buf (map toBuffer items)))"
  by (simp add: RLP_encode_def comp_def del: rlp_encode.simps)

lemma assignments_flat:
  "assignments H (map Buf (concat (map (\<lambda>k. [k, f k]) ks))) =
     Inr (map (\<lambda>k. (item_toString H (Buf k), f k)) ks)"
  by (induction ks) (auto simp: Buffer_from_def)

lemma new_Map_flat:
  "foldl (\<lambda>m p. map_set (fst p) (snd p) m) acc (map (\<lambda>k. (k, f k)) ks) =
     fold (\<lambda>k. map_set k (f k)) ks acc"
  by (induction ks arbitrary: acc) auto

lemma map_of_fold_map_set:
  "map_of (fold (\<lambda>k. map_set k (f k)) ks acc) =
     (\<lambda>x. if x \<in> set ks then Some (f x) else map_of acc x)"
  by (induction ks arbitrary: acc) (auto simp: map_of_map_set fun_eq_iff)

lemma map_of_rebuilt:
  "map_of (new_Map (map (\<lambda>k. (k, value_of r k)) (sorted_keys H r))) = map_of (entries r)"
proof
  fix x
  show "map_of (new_Map (map (\<lambda>k. (k, value_of r k)) (sorted_keys H r))) x = map_of (entries r) x"
  proof (cases "x \<in> set (keys r)")
    case True
    then obtain v where "map_of (entries r) x = Some v"
      by (cases "map_of (entries r) x") (auto simp: keys_def map_of_eq_None_iff)
    with True show ?thesis
      by (simp add: new_Map_def new_Map_flat map_of_fold_map_set sorted_keys_def set_sort_by
          value_of_def get_ENR_def)
  next
    case False
    then have "map_of (entries r) x = None"
      by (simp add: keys_def map_of_eq_None_iff)
    with False show ?thesis
      by (simp add: new_Map_def new_Map_flat map_of_fold_map_set sorted_keys_def set_sort_by)
  qed
qed

lemma length_encodeLength_append: "length body \<le> length (encodeLength n off @ body)"
  by simp

lemma decode_encode:
  assumes enc: "encode H (Some privateKey) r = (Inr encoded, r')"
    and key: "\<And>data. v4_verify H (get_ENR r (utf8 ''secp256k1'')) data (v4_sign H privateKey data)"
    and num: "Number (seq r) = Finite m"
    and str: "\<And>k. k \<in> set (keys r) \<Longrightarrow> item_toString H (Buf k) = k"
    and obj: "map_of (new_Map (Object_entries H (map (\<lambda>k. (k, value_of r k)) (sorted_keys H r)))) =
              map_of (new_Map (map (\<lambda>k. (k, value_of r k)) (sorted_keys H r)))"
  shows "\<exists>d. decode H encoded = Inr d \<and>
             map_of (entries d) = map_of (entries r) \<and>
             seq d = m \<and>
             signature d = signature r' \<and>
             nodeId H d = nodeId H r"
proof -
  define s where "s = v4_sign H privateKey (RLP_encode (content H r))"
  define kvs where "kvs = concat (map (\<lambda>k. [k, value_of r k]) (sorted_keys H r))"
  define ps where "ps = map (\<lambda>k. (k, value_of r k)) (sorted_keys H r)"
  define d where
    "d = \<lparr>entries = new_Map (Object_entries H ps), seq = toBigIntBE (be_bytes m), signature = Some s\<rparr>"
  obtain res r1 where st: "signature_step H (Some privateKey) r = (res, r1)"
    by (cases "signature_step H (Some privateKey) r")
  from signature_step_Some[OF st] enc st
  have res: "res = Inr s" and r1: "r1 = r\<lparr>signature := Some s\<rparr>"
    by (auto simp: encode_def s_def split: if_splits)
  from enc st res r1 have r': "r' = r\<lparr>signature := Some s\<rparr>"
    and encoded: "encoded = RLP_encode (InBuf s # content H r)"
    and size: "length encoded < 300"
    by (auto simp: encode_def MAX_RECORD_SIZE_def split: if_splits)
  from st res have v4: "id_ENR r = Inr (utf8 ''v4'')"
    by (auto simp: signature_step_def sign_def split: sum.splits if_splits)
  have bufs: "map toBuffer (InBuf s # content H r) = s # be_bytes m # kvs"
    by (simp add: toBuffer_content[OF num] kvs_def)
  then have enc_tree: "encoded = rlp_encode (Arr (map Buf (s # be_bytes m # kvs)))"
    by (simp only: encoded RLP_encode_buffers)
  have "length (concat (map (\<lambda>b. rlp_encode (Buf b)) (s # be_bytes m # kvs))) \<le> length encoded"
    unfolding enc_tree rlp_encode.simps(2) map_map comp_def
    by (rule length_encodeLength_append)
  with size have "length (concat (map (\<lambda>b. rlp_encode (Buf b)) (s # be_bytes m # kvs))) < 2 ^ 64"
    by simp
  from RLP_decode_encode[OF this]
  have "RLP_decode encoded = Some (Arr (map Buf (s # be_bytes m # kvs)))"
    by (simp only: enc_tree)
  then have dec: "RLP_decode encoded = Some (Arr (Buf s # Buf (be_bytes m) # map Buf kvs))"
    by simp
  have even: "length (Buf s # Buf (be_bytes m) # map Buf kvs) mod 2 = 0"
    by (simp add: kvs_def length_concat comp_def sum_list_triv)
  have "map (\<lambda>k. (item_toString H (Buf k), value_of r k)) (sorted_keys H r) = ps"
    unfolding ps_def by (rule map_cong) (simp_all add: sorted_keys_def set_sort_by str)
  then have asg: "assignments H (map Buf kvs) = Inr ps"
    by (simp add: kvs_def assignments_flat)
  have same: "map_of (new_Map (Object_entries H ps)) = map_of (entries r)"
    using obj by (simp add: ps_def map_of_rebuilt)
  then have get: "get_ENR d = get_ENR r"
    by (simp add: d_def get_ENR_def fun_eq_iff)
  have id: "id_ENR d = id_ENR r"
    unfolding id_ENR_def get ..
  have pk: "publicKey d = publicKey r"
    unfolding publicKey_def id_ENR_def get ..
  have "RLP_encode (content H r) = rlp_encode (Arr (map Buf (be_bytes m # kvs)))"
    by (simp only: RLP_encode_buffers toBuffer_content[OF num] kvs_def)
  then have data: "rlp_encode (Arr (Buf (be_bytes m) # map Buf kvs)) = RLP_encode (content H r)"
    by simp
  have pkr: "publicKey r = Inr (get_ENR r (utf8 ''secp256k1''))"
    by (simp add: publicKey_def v4)
  have "verify H d x s = Inr (v4_verify H (get_ENR r (utf8 ''secp256k1'')) x s)" for x
    by (simp add: verify_def id pk v4 pkr)
  then have ver: "verify H d (rlp_encode (Arr (Buf (be_bytes m) # map Buf kvs))) s = Inr True"
    by (simp only: data s_def key)
  have "decode H encoded = Inr d"
    using even asg ver
    by (simp add: decode_def dec toBigIntBE_item_def verify_item_def signature_of_def d_def
        del: rlp_encode.simps)
  moreover have "seq d = m" by (simp add: d_def toBigIntBE_be_bytes)
  moreover have "signature d = signature r'" by (simp add: d_def r')
  moreover have "nodeId H d = nodeId H r" unfolding nodeId_def id pk ..
  moreover have "map_of (entries d) = map_of (entries r)" by (simp add: d_def same)
  ultimately show ?thesis by blast
qed

text \<open>
  So the round trip holds for every sequence number that a double represents exactly, in
  particular below \<open>2^53\<close>: decoding what \<^verbatim>\<open>encode(privateKey)\<close> returned gives a record with
  the same entries, sequence number, signature and node identifier, provided the private
  key is the one of the record's public key.
\<close>

lemma roundtrip_exact_seq:
  assumes "encode H (Some privateKey) r = (Inr encoded, r')"
    and "\<And>data. v4_verify H (get_ENR r (utf8 ''secp256k1'')) data (v4_sign H privateKey data)"
    and "seq r < 2 ^ 53"
    and "\<And>k. k \<in> set (keys r) \<Longrightarrow> item_toString H (Buf k) = k"
    and "map_of (new_Map (Object_entries H (map (\<lambda>k. (k, value_of r k)) (sorted_keys H r)))) =
         map_of (new_Map (map (\<lambda>k. (k, value_of r k)) (sorted_keys H r)))"
  shows "\<exists>d. decode H encoded = Inr d \<and>
             map_of (entries d) = map_of (entries r) \<and>
             seq d = seq r \<and>
             signature d = signature r' \<and>
             nodeId H d = nodeId H r"
proof -
  from assms(3) have "Number (seq r) = Finite (seq r)"
    by (simp add: Number_def)
  from decode_encode[OF assms(1,2) this assms(4,5)] show ?thesis .
qed

lemma Number_2_53_plus_1: "Number 9007199254740993 = Finite 9007199254740992"
  by (simp add: Number_def bit_length.simps Let_def)

lemma big_seq_record_content:
  "content demo_host big_seq_record =
     [InNum (Finite 9007199254740992), InStr (utf8 ''id''), InBuf (utf8 ''v4''),
      InStr (utf8 ''secp256k1''), InBuf demo_key]"
  by (simp add: content_def sorted_keys_def sort_by_def keys_def demo_record_def demo_host_def
      big_seq_record_def collate_en_def fold_case_def flatten_entry_def get_ENR_def utf8_def
      Number_2_53_plus_1 demo_key_def)

lemma be_bytes_2_53: "be_bytes 9007199254740992 = [0x20, 0, 0, 0, 0, 0, 0]"
  by (simp add: be_bytes.simps)

lemma big_seq_record_unsigned_bytes:
  "RLP_encode (content demo_host big_seq_record) =
     [0xdc, 0x87, 0x20, 0, 0, 0, 0, 0, 0,
           0x82, 0x69, 0x64, 0x82, 0x76, 0x34,
           0x89, 0x73, 0x65, 0x63, 0x70, 0x32, 0x35, 0x36, 0x6b, 0x31, 0x83, 0x02, 0x9a, 0x33]"
  by (simp add: big_seq_record_content RLP_encode_def encodeLength_def utf8_def demo_key_def be_bytes_2_53)

lemma big_seq_record_signature_step:
  "signature_step demo_host (Some demo_key) big_seq_record =
     (Inr [0x02, 0x9a, 0x33, 0xbd], big_seq_record\<lparr>signature := Some [0x02, 0x9a, 0x33, 0xbd]\<rparr>)"
  by (simp add: signature_step_def sign_def big_seq_record_unsigned_bytes id_ENR_def get_ENR_def)
     (simp add: big_seq_record_def demo_record_def demo_host_def utf8_def checksum_def demo_key_def)

lemma big_seq_record_encoded:
  "RLP_encode (InBuf [0x02, 0x9a, 0x33, 0xbd] # content demo_host big_seq_record) =
     [0xe1, 0x84, 0x02, 0x9a, 0x33, 0xbd, 0x87, 0x20, 0, 0, 0, 0, 0, 0,
      0x82, 0x69, 0x64, 0x82, 0x76, 0x34,
      0x89, 0x73, 0x65, 0x63, 0x70, 0x32, 0x35, 0x36, 0x6b, 0x31, 0x83, 0x02, 0x9a, 0x33]"
  by (simp add: big_seq_record_content RLP_encode_def encodeLength_def utf8_def demo_key_def be_bytes_2_53)

lemma big_seq_record_encode:
  "encode demo_host (Some demo_key) big_seq_record =
     (Inr [0xe1, 0x84, 0x02, 0x9a, 0x33, 0xbd, 0x87, 0x20, 0, 0, 0, 0, 0, 0,
           0x82, 0x69, 0x64, 0x82, 0x76, 0x34,
           0x89, 0x73, 0x65, 0x63, 0x70, 0x32, 0x35, 0x36, 0x6b, 0x31, 0x83, 0x02, 0x9a, 0x33],
      big_seq_record\<lparr>signature := Some [0x02, 0x9a, 0x33, 0xbd]\<rparr>)"
  by (simp add: encode_def big_seq_record_signature_step big_seq_record_encoded MAX_RECORD_SIZE_def)

lemma big_seq_record_decode:
  "decode demo_host
     [0xe1, 0x84, 0x02, 0x9a, 0x33, 0xbd, 0x87, 0x20, 0, 0, 0, 0, 0, 0,
      0x82, 0x69, 0x64, 0x82, 0x76, 0x34,
      0x89, 0x73, 0x65, 0x63, 0x70, 0x32, 0x35, 0x36, 0x6b, 0x31, 0x83, 0x02, 0x9a, 0x33] =
     Inr \<lparr>entries = [(utf8 ''id'', utf8 ''v4''), (utf8 ''secp256k1'', demo_key)],
          seq = 9007199254740992, signature = Some [0x02, 0x9a, 0x33, 0xbd]\<rparr>"
proof -
  have "RLP_decode
     [0xe1, 0x84, 0x02, 0x9a, 0x33, 0xbd, 0x87, 0x20, 0, 0, 0, 0, 0, 0,
      0x82, 0x69, 0x64, 0x82, 0x76, 0x34,
      0x89, 0x73, 0x65, 0x63, 0x70, 0x32, 0x35, 0x36, 0x6b, 0x31, 0x83, 0x02, 0x9a, 0x33] =
     Some (Arr [Buf [0x02, 0x9a, 0x33, 0xbd], Buf [0x20, 0, 0, 0, 0, 0, 0], Buf (utf8 ''id''),
                Buf (utf8 ''v4''), Buf (utf8 ''secp256k1''), Buf demo_key])"
    by (simp add: RLP_decode_def rlp_header_def rlp_items.simps utf8_def demo_key_def)
  then show ?thesis
    apply (simp add: decode_def)
    apply (simp add: Buffer_from_def new_Map_def toBigIntBE_item_def verify_item_def
        signature_of_def demo_host_def toBigIntBE_def)
    apply (simp add: utf8_def verify_def publicKey_def id_ENR_def get_ENR_def demo_key_def)
    apply (simp add: encodeLength_def checksum_def)
    apply (simp add: new_Map_def signature_of_def demo_host_def)
    done
qed

text \<open>
  C3. Decoding what \<^verbatim>\<open>encode\<close> produced should give back the record. \<^verbatim>\<open>encode\<close> writes
  \<^verbatim>\<open>Number(this.seq)\<close>, a double, where \<^verbatim>\<open>decode\<close> reads the sequence number in full with
  \<^verbatim>\<open>toBigIntBE\<close>: for the sequence number \<open>2^53 + 1\<close> the bytes carry \<open>2^53\<close>, the signature
  verifies (it was computed over the same bytes) and the decoded record has another
  sequence number than the one encoded.
\<close>

theorem roundtrip_loses_large_seq:
  "seq big_seq_record = 9007199254740993 \<and>
   encode demo_host (Some demo_key) big_seq_record =
     (Inr [0xe1, 0x84, 0x02, 0x9a, 0x33, 0xbd, 0x87, 0x20, 0, 0, 0, 0, 0, 0,
           0x82, 0x69, 0x64, 0x82, 0x76, 0x34,
           0x89, 0x73, 0x65, 0x63, 0x70, 0x32, 0x35, 0x36, 0x6b, 0x31, 0x83, 0x02, 0x9a, 0x33],
      big_seq_record\<lparr>signature := Some [0x02, 0x9a, 0x33, 0xbd]\<rparr>) \<and>
   decode demo_host
     [0xe1, 0x84, 0x02, 0x9a, 0x33, 0xbd, 0x87, 0x20, 0, 0, 0, 0, 0, 0,
      0x82, 0x69, 0x64, 0x82, 0x76, 0x34,
      0x89, 0x73, 0x65, 0x63, 0x70, 0x32, 0x35, 0x36, 0x6b, 0x31, 0x83, 0x02, 0x9a, 0x33] =
     Inr \<lparr>entries = [(utf8 ''id'', utf8 ''v4''), (utf8 ''secp256k1'', demo_key)],
          seq = 9007199254740992, signature = Some [0x02, 0x9a, 0x33, 0xbd]\<rparr>"
  by (simp add: big_seq_record_encode big_seq_record_decode) (simp add: big_seq_record_def)

end
